theory Spec2Isabelle
  imports Complex_Main "HOL-Library.Sublist"
begin

section \<open>neusomatic: scan\_alignments.py\<close>

text \<open>
  A shallow embedding of \<^verbatim>\<open>neusomatic/python/scan_alignments.py\<close>: the per-unit
  worker \<^verbatim>\<open>run_scan_alignments\<close>, the orchestrator \<^verbatim>\<open>scan_alignments\<close> and the
  command-line entry point. The file is Python 2 (the worker takes a tuple parameter,
  \<^verbatim>\<open>def run_scan_alignments((work, reference, ...))\<close>, and there is no
  \<^verbatim>\<open>from __future__ import division\<close>), so \<^verbatim>\<open>/\<close> between two \<^verbatim>\<open>int\<close>s is floor
  division.
\<close>

subsection \<open>Python exceptions\<close>

datatype py_error =
    IOError
  | OSError
  | ValueError
  | IndexError
  | ZeroDivisionError
  | PyException string

subsection \<open>The split count (lines 101--102)\<close>

text \<open>
  \<^verbatim>\<open>num_split = max(int(np.ceil((total_len / 10000000) / num_threads) * num_threads), num_threads)\<close>

  \<^verbatim>\<open>total_len\<close> is a sum of \<^verbatim>\<open>int\<close>s and \<^verbatim>\<open>num_threads\<close> an \<^verbatim>\<open>int\<close>, so both
  divisions are Python 2 floor divisions (HOL's \<open>div\<close> on \<open>int\<close> rounds toward minus
  infinity as Python does) and raise \<^verbatim>\<open>ZeroDivisionError\<close> on a zero divisor.
  \<^verbatim>\<open>np.ceil\<close> then receives an integer, which it returns as a float of the same value;
  the model keeps the call as the ceiling of that integer read as a real.
\<close>

definition num_split :: "int \<Rightarrow> int \<Rightarrow> py_error + int" where
  "num_split total_len num_threads =
     (if num_threads = 0 then Inl ZeroDivisionError
      else Inr (max (\<lceil>real_of_int ((total_len div 10000000) div num_threads)\<rceil> * num_threads)
                    num_threads))"

text \<open>
  The formula as the specification words it: both divisions exact (real-valued), the
  ceiling taken afterwards.
\<close>

definition spec_num_split :: "int \<Rightarrow> int \<Rightarrow> int" where
  "spec_num_split total_len num_threads =
     max (\<lceil>(real_of_int total_len / 10000000) / real_of_int num_threads\<rceil> * num_threads)
         num_threads"

subsection \<open>Python strings and paths\<close>

text \<open>\<^verbatim>\<open>"{}".format(i)\<close> for a non-negative \<^verbatim>\<open>int\<close>: its decimal numeral.\<close>

fun str_nat :: "nat \<Rightarrow> string" where
  "str_nat n =
     (if n < 10 then [''0123456789'' ! n]
      else str_nat (n div 10) @ [''0123456789'' ! (n mod 10)])"

declare str_nat.simps [simp del]

definition startswith :: "string \<Rightarrow> string \<Rightarrow> bool" where
  "startswith s p = prefix p s"

text \<open>
  \<^verbatim>\<open>posixpath.join(a, *p)\<close>: a component that starts with a slash replaces the path
  so far; otherwise it is appended, after a slash unless the path is empty or already ends
  in one.
\<close>

definition join_step :: "string \<Rightarrow> string \<Rightarrow> string" where
  "join_step path b =
     (if startswith b ''/'' then b
      else if path = [] \<or> last path = CHR ''/'' then path @ b
      else path @ ''/'' @ b)"

definition os_path_join :: "string \<Rightarrow> string list \<Rightarrow> string" where
  "os_path_join a p = foldl join_step a p"

text \<open>\<^verbatim>\<open>posixpath.basename\<close>: what follows the last slash.\<close>

definition os_path_basename :: "string \<Rightarrow> string" where
  "os_path_basename p = rev (takeWhile (\<lambda>c. c \<noteq> CHR ''/'') (rev p))"

text \<open>
  \<^verbatim>\<open>posixpath.dirname\<close>: the head up to and including the last slash, with its
  trailing slashes removed unless it consists of slashes only.
\<close>

definition os_path_dirname :: "string \<Rightarrow> string" where
  "os_path_dirname p =
     (let head = rev (dropWhile (\<lambda>c. c \<noteq> CHR ''/'') (rev p))
      in if head \<noteq> [] \<and> \<not> list_all (\<lambda>c. c = CHR ''/'') head
         then rev (dropWhile (\<lambda>c. c = CHR ''/'') (rev head))
         else head)"

text \<open>\<^verbatim>\<open>s.split(sep)\<close> for a non-empty separator (both uses in the source).\<close>

fun py_split :: "string \<Rightarrow> string \<Rightarrow> string list" where
  "py_split sep [] = [[]]"
| "py_split sep (c # cs) =
     (if prefix sep (c # cs) then [] # py_split sep (drop (length sep - 1) cs)
      else (case py_split sep cs of
              [] \<Rightarrow> [[c]]
            | f # fs \<Rightarrow> (c # f) # fs))"

text \<open>\<^verbatim>\<open>xs[k]\<close> for \<open>k \<ge> 0\<close>: \<^verbatim>\<open>IndexError\<close> out of range.\<close>

definition py_index :: "'a list \<Rightarrow> nat \<Rightarrow> py_error + 'a" where
  "py_index xs k = (if k < length xs then Inr (xs ! k) else Inl IndexError)"

text \<open>
  \<^verbatim>\<open>int(s)\<close> in base 10: optional surrounding whitespace, an optional sign, then one or
  more decimal digits; anything else is a \<^verbatim>\<open>ValueError\<close>.
\<close>

definition py_isspace :: "char \<Rightarrow> bool" where
  "py_isspace c = (c \<in> set [CHR '' '', CHR 0x09, CHR 0x0A, CHR 0x0B, CHR 0x0C, CHR 0x0D])"

definition py_strip :: "string \<Rightarrow> string" where
  "py_strip s = rev (dropWhile py_isspace (rev (dropWhile py_isspace s)))"

definition digit_value :: "char \<Rightarrow> nat option" where
  "digit_value c =
     map_of [(CHR ''0'', 0), (CHR ''1'', 1), (CHR ''2'', 2), (CHR ''3'', 3), (CHR ''4'', 4),
             (CHR ''5'', 5), (CHR ''6'', 6), (CHR ''7'', 7), (CHR ''8'', 8), (CHR ''9'', 9)] c"

fun digits_value :: "nat \<Rightarrow> string \<Rightarrow> nat option" where
  "digits_value acc [] = Some acc"
| "digits_value acc (c # cs) =
     (case digit_value c of
        None \<Rightarrow> None
      | Some d \<Rightarrow> digits_value (10 * acc + d) cs)"

definition py_int :: "string \<Rightarrow> py_error + int" where
  "py_int s =
     (let t = py_strip s;
          neg = (t \<noteq> [] \<and> hd t = CHR ''-'');
          ds = (if t \<noteq> [] \<and> (hd t = CHR ''-'' \<or> hd t = CHR ''+'') then tl t else t)
      in if ds = [] then Inl ValueError
         else (case digits_value 0 ds of
                 None \<Rightarrow> Inl ValueError
               | Some n \<Rightarrow> Inr (if neg then - int n else int n)))"

text \<open>
  The sort key of line 94:
  \<^verbatim>\<open>int(os.path.basename(x).split(".bed")[0].split("_")[1])\<close>.
\<close>

definition region_index :: "string \<Rightarrow> py_error + int" where
  "region_index x =
     (case py_index (py_split ''.bed'' (os_path_basename x)) 0 of
        Inl e \<Rightarrow> Inl e
      | Inr stem \<Rightarrow>
          (case py_index (py_split ''_'' stem) 1 of
             Inl e \<Rightarrow> Inl e
           | Inr field \<Rightarrow> py_int field))"

text \<open>
  \<^verbatim>\<open>sorted(xs, key=key)\<close>: every key is computed first, in list order (the first
  exception aborts), then the list is sorted stably by key.
\<close>

fun keys_of :: "('a \<Rightarrow> py_error + int) \<Rightarrow> 'a list \<Rightarrow> py_error + int list" where
  "keys_of key [] = Inr []"
| "keys_of key (x # xs) =
     (case key x of
        Inl e \<Rightarrow> Inl e
      | Inr k \<Rightarrow> (case keys_of key xs of Inl e \<Rightarrow> Inl e | Inr ks \<Rightarrow> Inr (k # ks)))"

definition sorted_by :: "('a \<Rightarrow> py_error + int) \<Rightarrow> 'a list \<Rightarrow> py_error + 'a list" where
  "sorted_by key xs =
     (case keys_of key xs of
        Inl e \<Rightarrow> Inl e
      | Inr ks \<Rightarrow> Inr (map snd (sort_key fst (zip ks xs))))"

subsection \<open>The file system and the world\<close>

text \<open>
  A BED interval is (chromosome, start, end). A file is read by this program only through
  pybedtools, as a list of intervals; a directory has no content of its own. The file
  system maps path strings, as the program builds them, to nodes: two spellings of one
  path are two keys.
\<close>

type_synonym interval = "string \<times> int \<times> int"

datatype node = Dir | File "interval list"

type_synonym fsys = "string \<Rightarrow> node option"

text \<open>
  The command line of the external scanning binary (lines 38--46). The source formats
  a string; the model keeps the formatted values and the redirections as fields.
\<close>

record scan_cmd =
  cmd_binary :: string
  cmd_ref :: string
  cmd_b :: string
  cmd_L :: string
  cmd_out_vcf_file :: string
  cmd_out_count_file :: string
  cmd_window_size :: int
  cmd_min_af :: rat
  cmd_min_mapq :: int
  cmd_max_depth :: rat
  cmd_num_thread :: int
  cmd_calculate_qual_stat :: bool
  cmd_stdout :: string
  cmd_stderr :: string

text \<open>
  The tuple a worker receives (line 27): work, reference, scan\_alignments\_binary,
  split\_region\_file, input\_bam, window\_size, maf, min\_mapq, max\_dp, calc\_qual,
  num\_threads. The two floats (maf, max\_dp) are only passed through; they are rationals
  here.
\<close>

type_synonym unit_args =
  "string \<times> string \<times> string \<times> string \<times> string \<times> int \<times> rat \<times> int \<times> rat \<times> bool \<times> int"

type_synonym unit_result = "string \<times> string \<times> string"

text \<open>Every call that leaves the Python code is recorded, in order, whether it succeeds or not.\<close>

datatype event =
    Mkdir string
  | Rmtree string
  | SaveAs "interval list" string
  | Shell scan_cmd
  | Tabix string
  | Concat "string list" string
  | Glob string
  | SplitRegion string string int int
  | Worker unit_args

record world =
  files :: fsys
  trace :: "event list"

text \<open>
  The collaborators whose code is not in this file: \<^verbatim>\<open>utils.run_shell_command\<close> (which
  runs the external binary), \<^verbatim>\<open>pysam.tabix_index\<close>, \<^verbatim>\<open>utils.concatenate_files\<close>,
  \<^verbatim>\<open>split_bed.split_region\<close>, \<^verbatim>\<open>glob.glob\<close>, pybedtools' \<^verbatim>\<open>sort().merge(d=0)\<close> and
  the BAM header read by pysam. Each is a parameter: it may change the file system in any
  way and may raise.
\<close>

record env =
  run_shell_command :: "scan_cmd \<Rightarrow> fsys \<Rightarrow> py_error option \<times> fsys"
  tabix_index :: "string \<Rightarrow> fsys \<Rightarrow> py_error option \<times> fsys"
  concatenate_files :: "string list \<Rightarrow> string \<Rightarrow> fsys \<Rightarrow> py_error option \<times> fsys"
  split_region :: "string \<Rightarrow> string \<Rightarrow> int \<Rightarrow> int \<Rightarrow> fsys \<Rightarrow> (py_error + string list) \<times> fsys"
  glob_glob :: "string \<Rightarrow> fsys \<Rightarrow> string list"
  sort_merge :: "interval list \<Rightarrow> interval list"
  alignment_header :: "string \<Rightarrow> fsys \<Rightarrow> py_error + (string \<times> int) list"

text \<open>A computation threads the world and either raises or returns a value.\<close>

type_synonym 'a prog = "world \<Rightarrow> (py_error + 'a) \<times> world"

definition return_p :: "'a \<Rightarrow> 'a prog" where
  "return_p x = (\<lambda>w. (Inr x, w))"

definition raise_p :: "py_error \<Rightarrow> 'a prog" where
  "raise_p e = (\<lambda>w. (Inl e, w))"

definition bind_p :: "'a prog \<Rightarrow> ('a \<Rightarrow> 'b prog) \<Rightarrow> 'b prog" where
  "bind_p m f = (\<lambda>w. case m w of (Inl e, w') \<Rightarrow> (Inl e, w') | (Inr x, w') \<Rightarrow> f x w')"

definition seq_p :: "unit prog \<Rightarrow> 'b prog \<Rightarrow> 'b prog" where
  "seq_p m n = bind_p m (\<lambda>_. n)"

definition os_path_exists :: "world \<Rightarrow> string \<Rightarrow> bool" where
  "os_path_exists w p = (files w p \<noteq> None)"

text \<open>
  The parent of a path is usable when \<^verbatim>\<open>dirname\<close> is empty (the current directory),
  consists of slashes (the root), or names an existing directory.
\<close>

definition parent_is_dir :: "world \<Rightarrow> string \<Rightarrow> bool" where
  "parent_is_dir w p =
     (list_all (\<lambda>c. c = CHR ''/'') (os_path_dirname p) \<or> files w (os_path_dirname p) = Some Dir)"

text \<open>
  \<^verbatim>\<open>os.mkdir\<close>: \<^verbatim>\<open>OSError\<close> when the path exists or its parent is no directory.
  The parent is \<^verbatim>\<open>dirname\<close> of the path as spelled, so for a path written with a
  trailing slash the model raises where the operating system, which ignores that slash,
  creates the directory. The model thus has failing runs that the program does not have for
  such spellings; the statements below that need a directory to be created say so in their
  hypotheses.
\<close>

definition os_mkdir :: "string \<Rightarrow> unit prog" where
  "os_mkdir p w =
     (if os_path_exists w p \<or> \<not> parent_is_dir w p
      then (Inl OSError, w\<lparr>trace := trace w @ [Mkdir p]\<rparr>)
      else (Inr (), w\<lparr>files := (files w)(p \<mapsto> Dir), trace := trace w @ [Mkdir p]\<rparr>))"

text \<open>A path is under a directory when it is the directory or continues it after a slash.\<close>

definition path_under :: "string \<Rightarrow> string \<Rightarrow> bool" where
  "path_under d p = (p = d \<or> prefix (d @ ''/'') p)"

text \<open>
  \<^verbatim>\<open>shutil.rmtree\<close>: removes a directory with everything under it; \<^verbatim>\<open>OSError\<close> when
  the path is not a directory.
\<close>

definition shutil_rmtree :: "string \<Rightarrow> unit prog" where
  "shutil_rmtree p w =
     (if files w p = Some Dir
      then (Inr (), w\<lparr>files := (\<lambda>q. if path_under p q then None else files w q),
                      trace := trace w @ [Rmtree p]\<rparr>)
      else (Inl OSError, w\<lparr>trace := trace w @ [Rmtree p]\<rparr>))"

text \<open>\<^verbatim>\<open>pybedtools.BedTool(fn)\<close>, iterated: the intervals of an existing file.\<close>

definition BedTool :: "string \<Rightarrow> interval list prog" where
  "BedTool fn w =
     (case files w fn of
        Some (File ivs) \<Rightarrow> (Inr ivs, w)
      | _ \<Rightarrow> (Inl ValueError, w))"

text \<open>\<^verbatim>\<open>BedTool(ivs).saveas(fn)\<close>: writes the intervals to a file in an existing directory.\<close>

definition saveas :: "interval list \<Rightarrow> string \<Rightarrow> unit prog" where
  "saveas ivs fn w =
     (if parent_is_dir w fn \<and> files w fn \<noteq> Some Dir
      then (Inr (), w\<lparr>files := (files w)(fn \<mapsto> File ivs), trace := trace w @ [SaveAs ivs fn]\<rparr>)
      else (Inl IOError, w\<lparr>trace := trace w @ [SaveAs ivs fn]\<rparr>))"

text \<open>A call of a collaborator: the event is recorded, the file system is what it leaves.\<close>

definition ext_call :: "event \<Rightarrow> (fsys \<Rightarrow> py_error option \<times> fsys) \<Rightarrow> unit prog" where
  "ext_call ev op w =
     (case op (files w) of
        (None, fs') \<Rightarrow> (Inr (), w\<lparr>files := fs', trace := trace w @ [ev]\<rparr>)
      | (Some e, fs') \<Rightarrow> (Inl e, w\<lparr>files := fs', trace := trace w @ [ev]\<rparr>))"

subsection \<open>The per-unit worker (lines 27--62)\<close>

text \<open>The body of the \<^verbatim>\<open>try\<close> block, lines 33--54.\<close>

fun run_scan_alignments_try :: "env \<Rightarrow> unit_args \<Rightarrow> unit_result prog" where
  "run_scan_alignments_try env
     (work, reference, scan_alignments_binary, split_region_file, input_bam,
      window_size, maf, min_mapq, max_dp, calc_qual, num_threads) =
     seq_p (\<lambda>w. if \<not> os_path_exists w scan_alignments_binary
                then raise_p IOError w else return_p () w)
    (seq_p (\<lambda>w. if \<not> os_path_exists w work then os_mkdir work w else return_p () w)
    (bind_p (BedTool split_region_file) (\<lambda>regions.
     seq_p (if length regions > 0
            then ext_call
                   (Shell \<lparr>cmd_binary = scan_alignments_binary, cmd_ref = reference,
                           cmd_b = input_bam, cmd_L = split_region_file,
                           cmd_out_vcf_file = work @ ''/candidates.vcf'',
                           cmd_out_count_file = work @ ''/count.bed'',
                           cmd_window_size = window_size, cmd_min_af = maf,
                           cmd_min_mapq = min_mapq, cmd_max_depth = max_dp,
                           cmd_num_thread = num_threads,
                           cmd_calculate_qual_stat = calc_qual,
                           cmd_stdout = os_path_join work [''scan.out''],
                           cmd_stderr = os_path_join work [''scan.err'']\<rparr>)
                   (run_shell_command env
                         \<lparr>cmd_binary = scan_alignments_binary, cmd_ref = reference,
                           cmd_b = input_bam, cmd_L = split_region_file,
                           cmd_out_vcf_file = work @ ''/candidates.vcf'',
                           cmd_out_count_file = work @ ''/count.bed'',
                           cmd_window_size = window_size, cmd_min_af = maf,
                           cmd_min_mapq = min_mapq, cmd_max_depth = max_dp,
                           cmd_num_thread = num_threads,
                           cmd_calculate_qual_stat = calc_qual,
                           cmd_stdout = os_path_join work [''scan.out''],
                           cmd_stderr = os_path_join work [''scan.err'']\<rparr>)
            else seq_p (saveas [] (os_path_join work [''candidates.vcf'']))
                       (saveas [] (os_path_join work [''count.bed''])))
    (seq_p (ext_call (Tabix (os_path_join work [''count.bed'']))
                     (tabix_index env (os_path_join work [''count.bed''])))
    (seq_p (ext_call (Concat [split_region_file] (os_path_join work [''region.bed'']))
                     (concatenate_files env [split_region_file]
                        (os_path_join work [''region.bed''])))
           (return_p (os_path_join work [''candidates.vcf''],
                      os_path_join work [''count.bed.gz''],
                      os_path_join work [''region.bed''])))))))"

text \<open>
  The worker: any exception of the body is logged and turned into the sentinel \<^verbatim>\<open>None\<close>
  (lines 55--62; the handler only reads the file system).
\<close>

definition run_scan_alignments :: "env \<Rightarrow> unit_args \<Rightarrow> world \<Rightarrow> unit_result option \<times> world" where
  "run_scan_alignments env a w =
     (case run_scan_alignments_try env a w of
        (Inr r, w') \<Rightarrow> (Some r, w')
      | (Inl ex, w') \<Rightarrow> (None, w'))"

subsection \<open>The orchestrator (lines 65--145)\<close>

text \<open>The parameters of \<^verbatim>\<open>scan_alignments\<close> (lines 65--68).\<close>

record scan_args =
  arg_work :: string
  arg_scan_alignments_binary :: string
  arg_input_bam :: string
  arg_regions_bed_file :: string
  arg_reference :: string
  arg_num_threads :: int
  arg_window_size :: int
  arg_maf :: rat
  arg_min_mapq :: int
  arg_max_dp :: rat
  arg_restart :: bool
  arg_split_region_files :: "string list"
  arg_calc_qual :: bool

text \<open>
  An entry of \<^verbatim>\<open>all_outputs\<close>: the placeholder \<^verbatim>\<open>[]\<close> and the three paths of a
  skipped unit are Python lists (lines 110, 124), the result of a worker is a tuple
  (line 54) or \<^verbatim>\<open>None\<close> (line 62).
\<close>

datatype unit_output = PyList "string list" | PyTuple unit_result | PyNone

fun output_of :: "unit_result option \<Rightarrow> unit_output" where
  "output_of None = PyNone"
| "output_of (Some r) = PyTuple r"

fun output_paths :: "unit_output \<Rightarrow> string list" where
  "output_paths (PyList ps) = ps"
| "output_paths (PyTuple (a, b, c)) = [a, b, c]"
| "output_paths PyNone = []"

text \<open>Line 86: \<^verbatim>\<open>sum(map(lambda x: int(x[2]) - int(x[1]) + 1, regions_bed))\<close>.\<close>

definition total_len_of :: "interval list \<Rightarrow> int" where
  "total_len_of regions_bed = sum_list (map (\<lambda>(chrom, start, end). end - start + 1) regions_bed)"

text \<open>pybedtools' \<^verbatim>\<open>Interval.length\<close> is \<^verbatim>\<open>end - start\<close>.\<close>

definition interval_length :: "interval \<Rightarrow> int" where
  "interval_length = (\<lambda>(chrom, start, end). end - start)"

text \<open>
  Lines 90--91: the covered length of the files found, each read through pybedtools.
\<close>

fun spilt_total_len_of :: "string list \<Rightarrow> int prog" where
  "spilt_total_len_of [] = return_p 0"
| "spilt_total_len_of (x # xs) =
     bind_p (BedTool x) (\<lambda>ivs.
     bind_p (spilt_total_len_of xs) (\<lambda>n.
     return_p (sum_list (map interval_length ivs) + n)))"

text \<open>
  Lines 75--83: the base region set, from the BED file when one is named, else one
  interval \<open>(chrom, 1, length - 1)\<close> per contig of the BAM header.
\<close>

definition base_regions :: "env \<Rightarrow> scan_args \<Rightarrow> interval list prog" where
  "base_regions env a =
     (if arg_regions_bed_file a \<noteq> []
      then bind_p (BedTool (arg_regions_bed_file a)) (\<lambda>ivs. return_p (sort_merge env ivs))
      else (\<lambda>w. case alignment_header env (arg_input_bam a) (files w) of
                  Inl e \<Rightarrow> (Inl e, w)
                | Inr refs \<Rightarrow> (Inr (map (\<lambda>(chrom, len). (chrom, 1, len - 1)) refs), w)))"

text \<open>
  Lines 88--96: without \<^verbatim>\<open>restart\<close>, the \<^verbatim>\<open>region_*.bed\<close> files of the work
  directory, sorted by chunk index when they cover at least 0.98 of the total length and
  as \<^verbatim>\<open>glob\<close> returned them otherwise. The comparison \<^verbatim>\<open>spilt_total_len >= 0.98 * total_len\<close>
  is a float comparison in the source; it is read over the rationals here.
\<close>

definition found_region_files :: "env \<Rightarrow> scan_args \<Rightarrow> int \<Rightarrow> string list prog" where
  "found_region_files env a total_len =
     (if \<not> arg_restart a
      then bind_p (\<lambda>w. (Inr (glob_glob env (os_path_join (arg_work a) [''region_*.bed'']) (files w)),
                         w\<lparr>trace := trace w @ [Glob (os_path_join (arg_work a) [''region_*.bed''])]\<rparr>))
             (\<lambda>split_region_files.
           bind_p (spilt_total_len_of split_region_files) (\<lambda>spilt_total_len.
             if 98 * total_len \<le> 100 * spilt_total_len
             then (case sorted_by region_index split_region_files of
                     Inl e \<Rightarrow> raise_p e
                   | Inr sorted_files \<Rightarrow> return_p sorted_files)
             else return_p split_region_files))
      else return_p (arg_split_region_files a))"

text \<open>
  Lines 97--104: when no split file is at hand, the base region set is saved and split by
  \<^verbatim>\<open>split_region\<close> into \<open>num_split\<close> files (\<^verbatim>\<open>max_region=1e20\<close> is a constant of
  the call).
\<close>

definition repartition :: "env \<Rightarrow> scan_args \<Rightarrow> interval list \<Rightarrow> int \<Rightarrow> string list prog" where
  "repartition env a regions_bed total_len =
     seq_p (saveas regions_bed (os_path_join (arg_work a) [''all_regions.bed'']))
       (case num_split total_len (arg_num_threads a) of
          Inl e \<Rightarrow> raise_p e
        | Inr n \<Rightarrow>
            (\<lambda>w. case split_region env (arg_work a)
                        (os_path_join (arg_work a) [''all_regions.bed'']) n (arg_window_size a)
                        (files w) of
                   (r, fs') \<Rightarrow>
                     (r, w\<lparr>files := fs',
                           trace := trace w @
                             [SplitRegion (arg_work a)
                                (os_path_join (arg_work a) [''all_regions.bed''])
                                n (arg_window_size a)]\<rparr>)))"

text \<open>Lines 74--107: the list of split region files the units are made from.\<close>

definition split_region_files_of :: "env \<Rightarrow> scan_args \<Rightarrow> string list prog" where
  "split_region_files_of env a =
     (if arg_split_region_files a = []
      then bind_p (base_regions env a) (\<lambda>regions_bed.
           seq_p (\<lambda>w. if \<not> os_path_exists w (arg_work a)
                      then os_mkdir (arg_work a) w else return_p () w)
          (bind_p (found_region_files env a (total_len_of regions_bed)) (\<lambda>split_region_files.
             if split_region_files = []
             then repartition env a regions_bed (total_len_of regions_bed)
             else return_p split_region_files)))
      else return_p (arg_split_region_files a))"

text \<open>The directory of unit \<open>i\<close> and its three outputs (lines 113--127).\<close>

definition work_i :: "scan_args \<Rightarrow> nat \<Rightarrow> string" where
  "work_i a i = os_path_join (arg_work a) [''work.'' @ str_nat i]"

definition unit_file :: "scan_args \<Rightarrow> nat \<Rightarrow> string \<Rightarrow> string" where
  "unit_file a i name = os_path_join (arg_work a) [''work.'' @ str_nat i, name]"

text \<open>
  The test of lines 113--115: a unit is run unless \<^verbatim>\<open>restart\<close> is false and its three
  outputs exist.
\<close>

definition pending :: "scan_args \<Rightarrow> world \<Rightarrow> nat \<Rightarrow> bool" where
  "pending a w i =
     (arg_restart a
      \<or> \<not> os_path_exists w (unit_file a i ''region.bed'')
      \<or> \<not> os_path_exists w (unit_file a i ''candidates.vcf'')
      \<or> \<not> os_path_exists w (unit_file a i ''count.bed.gz''))"

text \<open>The argument tuple queued for unit \<open>i\<close> (lines 119--121): one thread per worker.\<close>

definition unit_args_of :: "scan_args \<Rightarrow> nat \<Rightarrow> string \<Rightarrow> unit_args" where
  "unit_args_of a i split_region_file =
     (work_i a i, arg_reference a, arg_scan_alignments_binary a, split_region_file,
      arg_input_bam a, arg_window_size a, arg_maf a, arg_min_mapq a, arg_max_dp a,
      arg_calc_qual a, 1)"

text \<open>The three output paths of unit \<open>i\<close>, in the order of lines 124--127.\<close>

definition unit_outputs :: "scan_args \<Rightarrow> nat \<Rightarrow> string list" where
  "unit_outputs a i =
     [unit_file a i ''candidates.vcf'', unit_file a i ''count.bed.gz'',
      unit_file a i ''region.bed'']"

text \<open>
  The loop of lines 112--127 over \<^verbatim>\<open>enumerate(split_region_files)\<close>, with the three
  lists it builds: \<^verbatim>\<open>map_args\<close>, \<^verbatim>\<open>all_outputs\<close> and \<^verbatim>\<open>not_done\<close>.
\<close>

fun classify ::
  "scan_args \<Rightarrow> (nat \<times> string) list \<Rightarrow> unit_args list \<times> unit_output list \<times> nat list \<Rightarrow>
   (unit_args list \<times> unit_output list \<times> nat list) prog" where
  "classify a [] (map_args, all_outputs, not_done) = return_p (map_args, all_outputs, not_done)"
| "classify a ((i, split_region_file) # rest) (map_args, all_outputs, not_done) =
     (\<lambda>w. if pending a w i
           then bind_p (\<lambda>w. if os_path_exists w (work_i a i)
                             then shutil_rmtree (work_i a i) w else return_p () w)
                  (\<lambda>_. classify a rest
                         (map_args @ [unit_args_of a i split_region_file],
                          all_outputs, not_done @ [i])) w
           else classify a rest
                  (map_args, all_outputs[i := PyList (unit_outputs a i)], not_done) w)"

text \<open>
  The pool (lines 129--132). The order in which the submitted units complete is not
  fixed by the program: it is a parameter, any list of numbers, read as follows. The
  units named in it come first, in its order; every other submitted unit follows, since
  \<^verbatim>\<open>get()\<close> waits for all of them. Units run one after the other in that
  order, and \<^verbatim>\<open>map_async\<close> stores each result in the slot of its unit.
\<close>

definition completion_order :: "nat \<Rightarrow> nat list \<Rightarrow> nat list" where
  "completion_order n order =
     remdups (filter (\<lambda>k. k < n) order) @ filter (\<lambda>k. k \<notin> set order) [0..<n]"

fun run_units ::
  "env \<Rightarrow> unit_args list \<Rightarrow> nat list \<Rightarrow> unit_result option list \<Rightarrow> world \<Rightarrow>
   unit_result option list \<times> world" where
  "run_units env map_args [] outputs w = (outputs, w)"
| "run_units env map_args (k # ks) outputs w =
     (case run_scan_alignments env (map_args ! k)
             (w\<lparr>trace := trace w @ [Worker (map_args ! k)]\<rparr>) of
        (r, w') \<Rightarrow> run_units env map_args ks (outputs[k := r]) w')"

definition pool_map_async_get ::
  "env \<Rightarrow> nat list \<Rightarrow> unit_args list \<Rightarrow> world \<Rightarrow> unit_result option list \<times> world" where
  "pool_map_async_get env order map_args w =
     run_units env map_args (completion_order (length map_args) order)
       (replicate (length map_args) None) w"

text \<open>Lines 139--141: a \<^verbatim>\<open>None\<close> among the outputs raises.\<close>

fun check_outputs :: "unit_result option list \<Rightarrow> py_error + unit" where
  "check_outputs [] = Inr ()"
| "check_outputs (None # outputs) = Inl (PyException ''scan_alignments failed!'')"
| "check_outputs (Some r # outputs) = check_outputs outputs"

text \<open>Lines 143--144: \<^verbatim>\<open>for i, output in zip(not_done, outputs): all_outputs[i] = output\<close>.\<close>

fun assign_outputs :: "(nat \<times> unit_result option) list \<Rightarrow> unit_output list \<Rightarrow> unit_output list" where
  "assign_outputs [] all_outputs = all_outputs"
| "assign_outputs ((i, output) # rest) all_outputs =
     assign_outputs rest (all_outputs[i := output_of output])"

text \<open>
  Lines 109--145 for a given list of split files. \<^verbatim>\<open>multiprocessing.Pool\<close> raises
  \<^verbatim>\<open>ValueError\<close> for fewer than one process. A worker catches every exception itself, so
  the handler of lines 133--137 has nothing to catch here.
\<close>

definition dispatch :: "env \<Rightarrow> scan_args \<Rightarrow> nat list \<Rightarrow> string list \<Rightarrow> unit_output list prog" where
  "dispatch env a order split_region_files =
     bind_p (classify a (enumerate 0 split_region_files)
               ([], replicate (length split_region_files) (PyList []), []))
       (\<lambda>(map_args, all_outputs, not_done).
          if arg_num_threads a < 1 then raise_p ValueError
          else (\<lambda>w. case pool_map_async_get env order map_args w of
                       (outputs, w') \<Rightarrow>
                         (case check_outputs outputs of
                            Inl e \<Rightarrow> (Inl e, w')
                          | Inr _ \<Rightarrow> (Inr (assign_outputs (zip not_done outputs) all_outputs), w'))))"

definition scan_alignments :: "env \<Rightarrow> scan_args \<Rightarrow> nat list \<Rightarrow> unit_output list prog" where
  "scan_alignments env a order = bind_p (split_region_files_of env a) (dispatch env a order)"

subsection \<open>The command line (lines 147--187)\<close>




subsection \<open>A concrete environment and concrete worlds\<close>

text \<open>
  Collaborators that behave as their contracts say: the binary writes its two output
  files, \<^verbatim>\<open>tabix_index\<close> replaces a file by its compressed copy,
  \<^verbatim>\<open>concatenate_files\<close> writes the destination, \<^verbatim>\<open>split_region\<close> writes two
  chunks of which the second is empty, and \<^verbatim>\<open>glob\<close> lists the chunk files that exist,
  in an order that is not the numeric one.
\<close>

definition example_env :: env where
  "example_env =
     \<lparr>run_shell_command =
        (\<lambda>cmd fs. (None, fs(cmd_out_vcf_file cmd \<mapsto> File [], cmd_out_count_file cmd \<mapsto> File []))),
      tabix_index =
        (\<lambda>p fs. case fs p of
                   Some (File ivs) \<Rightarrow> (None, (fs(p := None))(p @ ''.gz'' \<mapsto> File ivs))
                 | _ \<Rightarrow> (Some IOError, fs)),
      concatenate_files = (\<lambda>srcs dst fs. (None, fs(dst \<mapsto> File []))),
      split_region =
        (\<lambda>work regions_bed_file n min_region fs.
           (Inr [''w/region_0.bed'', ''w/region_1.bed''],
            fs(''w/region_0.bed'' \<mapsto> File [(''chr1'', 0, 500)], ''w/region_1.bed'' \<mapsto> File []))),
      glob_glob =
        (\<lambda>pattern fs. filter (\<lambda>p. fs p \<noteq> None) [''w/region_10.bed'', ''w/region_2.bed'']),
      sort_merge = (\<lambda>ivs. ivs),
      alignment_header = (\<lambda>bam fs. Inr [(''chr1'', 1001)])\<rparr>"

definition example_args :: scan_args where
  "example_args =
     \<lparr>arg_work = ''w'', arg_scan_alignments_binary = ''bin'', arg_input_bam = ''in.bam'',
      arg_regions_bed_file = [], arg_reference = ''ref.fa'', arg_num_threads = 2,
      arg_window_size = 2000, arg_maf = 1 / 100, arg_min_mapq = 1, arg_max_dp = 40000,
      arg_restart = True, arg_split_region_files = [''r0.bed'', ''r1.bed''],
      arg_calc_qual = True\<rparr>"

text \<open>A world without the binary, holding an empty region file.\<close>

definition world_no_binary :: world where
  "world_no_binary = \<lparr>files = [''w'' \<mapsto> Dir, ''r1.bed'' \<mapsto> File []], trace = []\<rparr>"

text \<open>A fresh world: the binary, the work directory, one non-empty and one empty region file.\<close>

definition world_fresh :: world where
  "world_fresh =
     \<lparr>files = [''bin'' \<mapsto> File [], ''w'' \<mapsto> Dir,
               ''r0.bed'' \<mapsto> File [(''chr1'', 0, 500)], ''r1.bed'' \<mapsto> File []],
      trace = []\<rparr>"

subsection \<open>What a computation adds to the trace\<close>

text \<open>
  \<open>emits P m\<close>: whatever the starting world, \<open>m\<close> only appends to the trace, and every
  event it appends satisfies \<open>P\<close>.
\<close>

definition emits :: "(event \<Rightarrow> bool) \<Rightarrow> (world \<Rightarrow> 'r \<times> world) \<Rightarrow> bool" where
  "emits P m = (\<forall>w r w'. m w = (r, w') \<longrightarrow> (\<exists>evs. trace w' = trace w @ evs \<and> list_all P evs))"

text \<open>The calls a worker can make.\<close>

fun worker_event :: "event \<Rightarrow> bool" where
  "worker_event (Mkdir p) = True"
| "worker_event (SaveAs ivs p) = True"
| "worker_event (Shell cmd) = True"
| "worker_event (Tabix p) = True"
| "worker_event (Concat srcs dst) = True"
| "worker_event _ = False"

text \<open>The fresh world without the second region file: the worker of unit 1 cannot read it.\<close>

definition world_r1_missing :: world where
  "world_r1_missing =
     \<lparr>files = [''bin'' \<mapsto> File [], ''w'' \<mapsto> Dir, ''r0.bed'' \<mapsto> File [(''chr1'', 0, 500)]],
      trace = []\<rparr>"

text \<open>The arguments of a second run: \<^verbatim>\<open>restart\<close> is false.\<close>

definition example_args_again :: scan_args where
  "example_args_again = example_args\<lparr>arg_restart := False\<rparr>"

text \<open>A world in which both units have their three outputs.\<close>

definition world_all_done :: world where
  "world_all_done =
     \<lparr>files = [''bin'' \<mapsto> File [], ''w'' \<mapsto> Dir,
               ''r0.bed'' \<mapsto> File [(''chr1'', 0, 500)], ''r1.bed'' \<mapsto> File [],
               ''w/work.0'' \<mapsto> Dir, ''w/work.0/region.bed'' \<mapsto> File [(''chr1'', 0, 500)],
               ''w/work.0/candidates.vcf'' \<mapsto> File [], ''w/work.0/count.bed.gz'' \<mapsto> File [],
               ''w/work.1'' \<mapsto> Dir, ''w/work.1/region.bed'' \<mapsto> File [],
               ''w/work.1/candidates.vcf'' \<mapsto> File [], ''w/work.1/count.bed.gz'' \<mapsto> File []],
      trace = []\<rparr>"

text \<open>
  A world in which unit 0 has its three outputs and the directory of unit 1 holds a
  partial output of an earlier run.
\<close>

definition world_half_done :: world where
  "world_half_done =
     \<lparr>files = [''bin'' \<mapsto> File [], ''w'' \<mapsto> Dir,
               ''r0.bed'' \<mapsto> File [(''chr1'', 0, 500)], ''r1.bed'' \<mapsto> File [],
               ''w/work.0'' \<mapsto> Dir, ''w/work.0/region.bed'' \<mapsto> File [(''chr1'', 0, 500)],
               ''w/work.0/candidates.vcf'' \<mapsto> File [], ''w/work.0/count.bed.gz'' \<mapsto> File [],
               ''w/work.1'' \<mapsto> Dir, ''w/work.1/candidates.vcf'' \<mapsto> File [(''chr1'', 7, 8)]],
      trace = []\<rparr>"

text \<open>
  The file system of a unit with an empty region file at the moment the count table is
  about to be indexed: the unit directory created if it was absent, the two empty files
  written (lines 36, 48, 49).
\<close>

definition files_before_indexing :: "world \<Rightarrow> string \<Rightarrow> fsys" where
  "files_before_indexing w work =
     (if files w work = None then (files w)(work \<mapsto> Dir) else files w)
       (os_path_join work [''candidates.vcf''] \<mapsto> File [],
        os_path_join work [''count.bed''] \<mapsto> File [])"

text \<open>The same world without the binary.\<close>

definition world_half_done_no_binary :: world where
  "world_half_done_no_binary =
     world_half_done\<lparr>files := (files world_half_done)(''bin'' := None)\<rparr>"



text \<open>
  A later run that is to look for the chunk files of an earlier one: \<^verbatim>\<open>restart\<close> is
  false and no list of split files is given.
\<close>

definition example_args_rescan :: scan_args where
  "example_args_rescan = example_args\<lparr>arg_restart := False, arg_split_region_files := []\<rparr>"

text \<open>
  Two chunk files of an earlier run that cover 200 of the 1000 positions of the base
  region set, and two that cover all of them.
\<close>

definition world_low_coverage :: world where
  "world_low_coverage =
     \<lparr>files = [''bin'' \<mapsto> File [], ''w'' \<mapsto> Dir,
               ''w/region_10.bed'' \<mapsto> File [(''chr1'', 0, 100)],
               ''w/region_2.bed'' \<mapsto> File [(''chr1'', 100, 200)]],
      trace = []\<rparr>"

definition world_full_coverage :: world where
  "world_full_coverage =
     \<lparr>files = [''bin'' \<mapsto> File [], ''w'' \<mapsto> Dir,
               ''w/region_10.bed'' \<mapsto> File [(''chr1'', 500, 1000)],
               ''w/region_2.bed'' \<mapsto> File [(''chr1'', 0, 500)]],
      trace = []\<rparr>"

subsection \<open>The split count: properties\<close>

lemma num_split_floor:
  "num_threads \<noteq> 0 \<Longrightarrow>
   num_split total_len num_threads =
     Inr (max ((total_len div 10000000) div num_threads * num_threads) num_threads)"
  by (simp add: num_split_def)

lemma num_split_multiple:
  assumes "1 \<le> num_threads" and "num_split total_len num_threads = Inr n"
  shows "num_threads dvd n \<and> num_threads \<le> n"
  using assms by (auto simp: num_split_def max_def split: if_splits)

lemma num_split_scenario:
  "num_split 25000000 4 = Inr 4 \<and> spec_num_split 25000000 4 = 4"
  by (simp add: num_split_def spec_num_split_def)

text \<open>
  Claim C1. The specification computes the split count with exact divisions before the
  ceiling. The code divides with Python 2 floor division, so the ceiling has nothing left
  to round: for \<open>total_len = 25000000\<close> and one thread the code yields 2 splits where
  the specified formula yields 3.
\<close>

theorem num_split_floor_division_25M_1:
  "num_split 25000000 1 = Inr 2 \<and> spec_num_split 25000000 1 = 3"
  by (simp add: num_split_def spec_num_split_def)

subsection \<open>Running computations\<close>

lemma return_p_apply [simp]: "return_p x w = (Inr x, w)"
  by (simp add: return_p_def)

lemma raise_p_apply [simp]: "raise_p e w = (Inl e, w)"
  by (simp add: raise_p_def)

lemma bind_p_apply:
  "bind_p m f w = (case m w of (Inl e, w') \<Rightarrow> (Inl e, w') | (Inr x, w') \<Rightarrow> f x w')"
  by (simp add: bind_p_def)

lemma bind_p_Inr [simp]: "m w = (Inr x, w') \<Longrightarrow> bind_p m f w = f x w'"
  by (simp add: bind_p_def)

lemma bind_p_Inl [simp]: "m w = (Inl e, w') \<Longrightarrow> bind_p m f w = (Inl e, w')"
  by (simp add: bind_p_def)

lemma seq_p_Inr [simp]: "m w = (Inr x, w') \<Longrightarrow> seq_p m n w = n w'"
  by (simp add: seq_p_def)

lemma seq_p_Inl [simp]: "m w = (Inl e, w') \<Longrightarrow> seq_p m n w = (Inl e, w')"
  by (simp add: seq_p_def)

lemma join1: "os_path_join work [name] = join_step work name"
  by (simp add: os_path_join_def)

lemma dropWhile_rev_name:
  "CHR ''/'' \<notin> set name \<Longrightarrow>
   dropWhile (\<lambda>c. c \<noteq> CHR ''/'') (rev name @ CHR ''/'' # xs) = CHR ''/'' # xs"
  by (induction name rule: rev_induct) auto

lemma dirname_join:
  assumes "work \<noteq> []" "last work \<noteq> CHR ''/''" "CHR ''/'' \<notin> set name"
  shows "os_path_dirname (os_path_join work [name]) = work"
proof -
  have n: "\<not> startswith name ''/''"
    using assms(3) by (cases name) (auto simp: startswith_def)
  have j: "os_path_join work [name] = work @ ''/'' @ name"
    using assms n by (simp add: join1 join_step_def)
  have h: "rev (dropWhile (\<lambda>c. c \<noteq> CHR ''/'') (rev (work @ ''/'' @ name))) = work @ ''/''"
    using dropWhile_rev_name[OF assms(3), of "rev work"] by simp
  have "last work \<in> set work" using assms(1) by simp
  then have nall: "\<not> list_all (\<lambda>c. c = CHR ''/'') (work @ ''/'')"
    using assms(2) by (auto simp: list_all_iff)
  have d: "dropWhile (\<lambda>c. c = CHR ''/'') (rev work) = rev work"
    using assms(1,2) by (cases work rule: rev_cases) auto
  show ?thesis
    unfolding j os_path_dirname_def h Let_def using nall d by (simp del: list_all_append)
qed

lemma digit_nth_mem: "n < 10 \<Longrightarrow> ''0123456789'' ! n \<in> set ''0123456789''"
  by (rule nth_mem) simp

lemma str_nat_digits: "set (str_nat n) \<subseteq> set ''0123456789''"
proof (induction n rule: str_nat.induct)
  case (1 n)
  show ?case
  proof (cases "n < 10")
    case True
    then show ?thesis
      using digit_nth_mem[of n] by (subst str_nat.simps) simp
  next
    case False
    have "n mod 10 < 10" by simp
    then have "''0123456789'' ! (n mod 10) \<in> set ''0123456789''"
      by (rule digit_nth_mem)
    then show ?thesis
      using False 1 by (subst str_nat.simps) simp
  qed
qed

lemma str_nat_no_slash: "CHR ''/'' \<notin> set (str_nat n)"
  using str_nat_digits[of n] by auto

lemma str_nat_nonempty: "str_nat n \<noteq> []"
  by (subst str_nat.simps) simp

lemma digit_nth_inj:
  assumes "m < 10" "n < 10" "''0123456789'' ! m = ''0123456789'' ! n"
  shows "m = n"
proof -
  have "distinct ''0123456789''" by simp
  moreover have "m < length ''0123456789''" "n < length ''0123456789''"
    using assms by simp_all
  ultimately show ?thesis
    using assms(3) nth_eq_iff_index_eq by blast
qed

lemma str_nat_inj: "str_nat m = str_nat n \<Longrightarrow> m = n"
proof (induction m arbitrary: n rule: str_nat.induct)
  case (1 m)
  show ?case
  proof (cases "m < 10")
    case m: True
    show ?thesis
    proof (cases "n < 10")
      case True
      with m 1(2) show ?thesis
        by (auto simp: str_nat.simps[of m] str_nat.simps[of n] intro: digit_nth_inj)
    next
      case False
      with m 1(2) str_nat_nonempty[of "n div 10"] show ?thesis
        by (auto simp: str_nat.simps[of m] str_nat.simps[of n] append_eq_Cons_conv)
    qed
  next
    case m: False
    show ?thesis
    proof (cases "n < 10")
      case True
      with m 1(2) str_nat_nonempty[of "m div 10"] show ?thesis
        by (auto simp: str_nat.simps[of m] str_nat.simps[of n] Cons_eq_append_conv)
    next
      case False
      with m 1(2) have e: "str_nat (m div 10) = str_nat (n div 10)"
        and d: "''0123456789'' ! (m mod 10) = ''0123456789'' ! (n mod 10)"
        by (auto simp: str_nat.simps[of m] str_nat.simps[of n])
      from 1(1)[OF m e] have q: "m div 10 = n div 10" .
      have r: "m mod 10 = n mod 10"
        by (rule digit_nth_inj[OF _ _ d]) simp_all
      from q r show ?thesis
        by (metis div_mult_mod_eq)
    qed
  qed
qed

text \<open>The common stem of the unit directories.\<close>

lemma work_i_eq:
  "work_i a i =
     (if arg_work a = [] \<or> last (arg_work a) = CHR ''/'' then arg_work a else arg_work a @ ''/'')
     @ ''work.'' @ str_nat i"
  by (simp add: work_i_def os_path_join_def join_step_def startswith_def)

lemma work_i_nonempty: "work_i a i \<noteq> []"
  by (simp add: work_i_eq)

lemma work_i_last: "last (work_i a i) \<noteq> CHR ''/''"
proof -
  have "last (work_i a i) = last (str_nat i)"
    using str_nat_nonempty[of i] by (simp add: work_i_eq)
  moreover have "last (str_nat i) \<in> set (str_nat i)"
    using str_nat_nonempty by simp
  ultimately show ?thesis
    using str_nat_no_slash[of i] by metis
qed

lemma unit_file_eq:
  "\<not> startswith name ''/'' \<Longrightarrow> unit_file a i name = work_i a i @ ''/'' @ name"
  using work_i_nonempty[of a i] work_i_last[of a i]
  by (simp add: unit_file_def work_i_def os_path_join_def join_step_def)

lemma unit_file_join:
  "unit_file a i name = os_path_join (work_i a i) [name]"
  by (simp add: unit_file_def work_i_def os_path_join_def)

lemma takeWhile_upto:
  "c \<notin> set xs \<Longrightarrow> takeWhile (\<lambda>x. x \<noteq> c) (xs @ c # r) = xs"
  by (induction xs) auto

lemma digits_prefix_slash:
  assumes "prefix (xs @ CHR ''/'' # us) (ys @ CHR ''/'' # vs)"
    and "CHR ''/'' \<notin> set xs" "CHR ''/'' \<notin> set ys"
  shows "xs = ys"
proof -
  from assms(1) obtain r where e: "ys @ CHR ''/'' # vs = (xs @ CHR ''/'' # us) @ r"
    by (auto simp: prefix_def)
  have "takeWhile (\<lambda>c. c \<noteq> CHR ''/'') (ys @ CHR ''/'' # vs) = ys"
    using assms(3) by (rule takeWhile_upto)
  moreover have "takeWhile (\<lambda>c. c \<noteq> CHR ''/'') ((xs @ CHR ''/'' # us) @ r) = xs"
    using takeWhile_upto[OF assms(2), of "us @ r"] by simp
  ultimately show ?thesis using e by simp
qed

lemma under_work_i_unit_file:
  assumes "path_under (work_i a j) (unit_file a i name)" "\<not> startswith name ''/''"
  shows "i = j"
proof -
  let ?B = "(if arg_work a = [] \<or> last (arg_work a) = CHR ''/'' then arg_work a else arg_work a @ ''/'') @ ''work.''"
  have wi: "unit_file a i name = ?B @ str_nat i @ CHR ''/'' # name"
    using unit_file_eq[OF assms(2)] by (simp add: work_i_eq)
  have wj: "work_i a j = ?B @ str_nat j" by (simp add: work_i_eq)
  from assms(1) consider "unit_file a i name = work_i a j"
    | "prefix (work_i a j @ ''/'') (unit_file a i name)"
    by (auto simp: path_under_def)
  then have "str_nat j = str_nat i"
  proof cases
    case 1
    then have "str_nat i @ CHR ''/'' # name = str_nat j" unfolding wi wj by simp
    then have "CHR ''/'' \<in> set (str_nat j)" by (metis in_set_conv_decomp)
    then show ?thesis using str_nat_no_slash by blast
  next
    case 2
    then have "prefix (str_nat j @ CHR ''/'' # []) (str_nat i @ CHR ''/'' # name)"
      unfolding wi wj by simp
    then show ?thesis
      using digits_prefix_slash str_nat_no_slash by blast
  qed
  then show ?thesis using str_nat_inj by simp
qed

lemma under_work_i_work_i:
  assumes "path_under (work_i a j) (work_i a i)"
  shows "i = j"
proof -
  let ?B = "(if arg_work a = [] \<or> last (arg_work a) = CHR ''/'' then arg_work a else arg_work a @ ''/'') @ ''work.''"
  have wi: "work_i a i = ?B @ str_nat i" by (simp add: work_i_eq)
  have wj: "work_i a j = ?B @ str_nat j" by (simp add: work_i_eq)
  from assms consider "work_i a i = work_i a j"
    | "prefix (work_i a j @ ''/'') (work_i a i)"
    by (auto simp: path_under_def)
  then have "str_nat j = str_nat i"
  proof cases
    case 1
    then show ?thesis unfolding wi wj by simp
  next
    case 2
    then have "prefix (str_nat j @ ''/'') (str_nat i)"
      unfolding wi wj by simp
    then have "CHR ''/'' \<in> set (str_nat i)"
      by (auto simp: prefix_def)
    then show ?thesis using str_nat_no_slash by blast
  qed
  then show ?thesis using str_nat_inj by simp
qed

lemma under_unit_file: "\<not> startswith name ''/'' \<Longrightarrow> path_under (work_i a i) (unit_file a i name)"
  by (simp add: unit_file_eq path_under_def)

lemma under_self: "path_under d d"
  by (simp add: path_under_def)


subsection \<open>The worker\<close>

text \<open>
  Claim C8. The worker checks the path of the external binary before anything else: when
  it does not exist the worker returns \<^verbatim>\<open>None\<close> and has changed nothing, whatever the
  region file of the unit holds, an empty region file included.
\<close>

theorem worker_missing_binary:
  "\<not> os_path_exists w scan_alignments_binary \<Longrightarrow>
   run_scan_alignments env
     (work, reference, scan_alignments_binary, split_region_file, input_bam,
      window_size, maf, min_mapq, max_dp, calc_qual, num_threads) w = (None, w)"
  by (simp add: run_scan_alignments_def)

theorem worker_missing_binary_witness:
  "\<not> os_path_exists world_no_binary ''bin'' \<and>
   BedTool ''r1.bed'' world_no_binary = (Inr [], world_no_binary) \<and>
   run_scan_alignments example_env
     (''w/work.1'', ''ref.fa'', ''bin'', ''r1.bed'', ''in.bam'', 2000, 1 / 100, 1, 40000, True, 1)
     world_no_binary = (None, world_no_binary)"
  using worker_missing_binary [of world_no_binary "''bin''" example_env "''w/work.1''"
      "''ref.fa''" "''r1.bed''" "''in.bam''" 2000 "1 / 100" 1 40000 True 1]
  by (simp add: world_no_binary_def os_path_exists_def BedTool_def)

lemma seq_pE:
  assumes "seq_p m n w = (r, w')"
  obtains e where "m w = (Inl e, w')" "r = Inl e"
        | w1 where "m w = (Inr (), w1)" "n w1 = (r, w')"
  using assms by (auto simp: seq_p_def bind_p_def split: prod.splits sum.splits)

lemma bind_pE:
  assumes "bind_p m f w = (r, w')"
  obtains e where "m w = (Inl e, w')" "r = Inl e"
        | x w1 where "m w = (Inr x, w1)" "f x w1 = (r, w')"
  using assms by (auto simp: bind_p_def split: prod.splits sum.splits)

lemma saveas_trace: "saveas ivs fn w = (r, w') \<Longrightarrow> trace w' = trace w @ [SaveAs ivs fn]"
  by (auto simp: saveas_def split: if_splits)

lemma ext_call_trace: "ext_call ev op w = (r, w') \<Longrightarrow> trace w' = trace w @ [ev]"
  by (auto simp: ext_call_def split: prod.splits option.splits)

lemma os_mkdir_trace: "os_mkdir p w = (r, w') \<Longrightarrow> trace w' = trace w @ [Mkdir p]"
  by (auto simp: os_mkdir_def split: if_splits)


lemma BedTool_world: "BedTool fn w = (r, w') \<Longrightarrow> w' = w"
  by (auto simp: BedTool_def split: option.splits node.splits)

text \<open>The steps of the worker after the region file has been found empty.\<close>

lemma empty_region_steps:
  assumes "seq_p (seq_p (saveas [] cand) (saveas [] cnt))
             (seq_p (ext_call (Tabix cnt) t)
                (seq_p (ext_call (Concat [f] reg) c) (return_p res))) w = (r, w')"
  shows "\<exists>evs. trace w' = trace w @ evs \<and> (\<forall>cmd. Shell cmd \<notin> set evs) \<and>
           ((\<exists>e. r = Inl e) \<or>
            (r = Inr res \<and> evs = [SaveAs [] cand, SaveAs [] cnt, Tabix cnt, Concat [f] reg]))"
  using assms
  by (elim seq_pE) (auto dest!: saveas_trace ext_call_trace)


lemma worker_result_cases:
  assumes "run_scan_alignments env a w = (r, w')"
  obtains e where "run_scan_alignments_try env a w = (Inl e, w')" "r = None"
        | x where "run_scan_alignments_try env a w = (Inr x, w')" "r = Some x"
  using assms by (auto simp: run_scan_alignments_def split: prod.splits sum.splits)

lemma mkdir_keeps_file:
  assumes "files w f = Some (File ivs)" "os_mkdir p w = (Inr u, w1)"
  shows "files w1 f = Some (File ivs)"
  using assms by (auto simp: os_mkdir_def os_path_exists_def split: if_splits)

lemma worker_empty_region_shape:
  assumes bin: "os_path_exists w scan_alignments_binary"
      and empty: "files w split_region_file = Some (File [])"
      and run: "run_scan_alignments env
                  (work, reference, scan_alignments_binary, split_region_file, input_bam,
                   window_size, maf, min_mapq, max_dp, calc_qual, num_threads) w = (r, w')"
  shows "\<exists>evs. trace w' = trace w @ evs \<and> (\<forall>cmd. Shell cmd \<notin> set evs) \<and>
           (r = None \<or>
            (r = Some (os_path_join work [''candidates.vcf''],
                       os_path_join work [''count.bed.gz''],
                       os_path_join work [''region.bed'']) \<and>
             evs = (if os_path_exists w work then [] else [Mkdir work]) @
                   [SaveAs [] (os_path_join work [''candidates.vcf'']),
                    SaveAs [] (os_path_join work [''count.bed'']),
                    Tabix (os_path_join work [''count.bed'']),
                    Concat [split_region_file] (os_path_join work [''region.bed''])]))"
proof -
  let ?a = "(work, reference, scan_alignments_binary, split_region_file, input_bam,
             window_size, maf, min_mapq, max_dp, calc_qual, num_threads)"
  obtain t where t: "run_scan_alignments_try env ?a w = (t, w')"
    and r: "r = (case t of Inl e \<Rightarrow> None | Inr x \<Rightarrow> Some x)"
    using run by (auto elim!: worker_result_cases)
  from t show ?thesis
    unfolding run_scan_alignments_try.simps
  proof (elim seq_pE bind_pE, goal_cases)
    case (1 e)
    then show ?case using bin by (simp split: if_splits)
  next
    case (2 w1 e)
    then have "w1 = w" using bin by (simp split: if_splits)
    with 2 r show ?case by (auto split: if_splits dest: os_mkdir_trace)
  next
    case (3 w1 w2 e)
    then show ?case using r by (auto split: if_splits dest!: BedTool_world os_mkdir_trace)
  next
    case (4 w1 w2 regions w3 e)
    then have w1: "w1 = w" and w3: "w3 = w2" using bin by (auto split: if_splits dest: BedTool_world)
    have "files w2 split_region_file = Some (File [])"
      using 4(2) empty w1 by (auto split: if_splits dest: mkdir_keeps_file)
    then have "regions = []" using 4(3) by (simp add: BedTool_def)
    with 4 w1 w3 r show ?case
      by (auto split: if_splits elim!: seq_pE dest!: saveas_trace os_mkdir_trace)
  next
    case (5 w1 w2 regions w3 w4 e)
    then have w1: "w1 = w" and w3: "w3 = w2" using bin by (auto split: if_splits dest: BedTool_world)
    have "files w2 split_region_file = Some (File [])"
      using 5(2) empty w1 by (auto split: if_splits dest: mkdir_keeps_file)
    then have "regions = []" using 5(3) by (simp add: BedTool_def)
    with 5 w1 w3 r show ?case
      by (auto split: if_splits elim!: seq_pE dest!: saveas_trace os_mkdir_trace ext_call_trace)
  next
    case (6 w1 w2 regions w3 w4 w5 e)
    then have w1: "w1 = w" and w3: "w3 = w2" using bin by (auto split: if_splits dest: BedTool_world)
    have "files w2 split_region_file = Some (File [])"
      using 6(2) empty w1 by (auto split: if_splits dest: mkdir_keeps_file)
    then have "regions = []" using 6(3) by (simp add: BedTool_def)
    with 6 w1 w3 r show ?case
      by (auto split: if_splits elim!: seq_pE dest!: saveas_trace os_mkdir_trace ext_call_trace)
  next
    case (7 w1 w2 regions w3 w4 w5 w6)
    then have w1: "w1 = w" and w3: "w3 = w2" using bin by (auto split: if_splits dest: BedTool_world)
    have "files w2 split_region_file = Some (File [])"
      using 7(2) empty w1 by (auto split: if_splits dest: mkdir_keeps_file)
    then have "regions = []" using 7(3) by (simp add: BedTool_def)
    with 7 w1 w3 r show ?case
      by (auto split: if_splits elim!: seq_pE dest!: saveas_trace os_mkdir_trace ext_call_trace)
  qed
qed

lemma saveas_ok:
  "parent_is_dir w fn \<Longrightarrow> files w fn \<noteq> Some Dir \<Longrightarrow>
   saveas ivs fn w =
     (Inr (), w\<lparr>files := (files w)(fn \<mapsto> File ivs), trace := trace w @ [SaveAs ivs fn]\<rparr>)"
  by (simp add: saveas_def)

lemma ext_call_ok:
  "fst (op (files w)) = None \<Longrightarrow>
   ext_call ev op w = (Inr (), w\<lparr>files := snd (op (files w)), trace := trace w @ [ev]\<rparr>)"
  by (cases "op (files w)") (auto simp: ext_call_def)

lemma os_mkdir_ok:
  "files w p = None \<Longrightarrow> parent_is_dir w p \<Longrightarrow>
   os_mkdir p w = (Inr (), w\<lparr>files := (files w)(p \<mapsto> Dir), trace := trace w @ [Mkdir p]\<rparr>)"
  by (simp add: os_mkdir_def os_path_exists_def)

lemma BedTool_ok: "files w fn = Some (File ivs) \<Longrightarrow> BedTool fn w = (Inr ivs, w)"
  by (simp add: BedTool_def)

lemma join_plain:
  "work \<noteq> [] \<Longrightarrow> last work \<noteq> CHR ''/'' \<Longrightarrow> \<not> startswith name ''/'' \<Longrightarrow>
   os_path_join work [name] = work @ ''/'' @ name"
  by (simp add: join1 join_step_def)

lemma parent_of_join:
  "work \<noteq> [] \<Longrightarrow> last work \<noteq> CHR ''/'' \<Longrightarrow> CHR ''/'' \<notin> set name \<Longrightarrow>
   files w work = Some Dir \<Longrightarrow> parent_is_dir w (os_path_join work [name])"
  by (simp add: parent_is_dir_def dirname_join)

text \<open>
  In a usable unit directory the worker on an empty region file returns the three paths
  exactly when its own two calls, indexing and concatenation, do not raise.
\<close>

lemma ext_call_eq:
  "ext_call ev op w =
     ((case fst (op (files w)) of None \<Rightarrow> Inr () | Some e \<Rightarrow> Inl e),
      w\<lparr>files := snd (op (files w)), trace := trace w @ [ev]\<rparr>)"
  by (cases "op (files w)") (auto simp: ext_call_def split: option.splits)

lemma worker_empty_region_in_dir:
  assumes bin: "os_path_exists w scan_alignments_binary"
      and empty: "files w split_region_file = Some (File [])"
      and dir: "files w work = Some Dir"
      and wk: "work \<noteq> []" "last work \<noteq> CHR ''/''"
      and nd: "files w (os_path_join work [''candidates.vcf'']) \<noteq> Some Dir"
              "files w (os_path_join work [''count.bed'']) \<noteq> Some Dir"
  shows "fst (run_scan_alignments env
                (work, reference, scan_alignments_binary, split_region_file, input_bam,
                 window_size, maf, min_mapq, max_dp, calc_qual, num_threads) w) =
         (if fst (tabix_index env (os_path_join work [''count.bed''])
                    (files_before_indexing w work)) = None \<and>
             fst (concatenate_files env [split_region_file] (os_path_join work [''region.bed''])
                    (snd (tabix_index env (os_path_join work [''count.bed''])
                            (files_before_indexing w work)))) = None
          then Some (os_path_join work [''candidates.vcf''],
                     os_path_join work [''count.bed.gz''],
                     os_path_join work [''region.bed''])
          else None)"
proof -
  let ?cand = "os_path_join work [''candidates.vcf'']"
  let ?cnt = "os_path_join work [''count.bed'']"
  have cand: "?cand = work @ ''/candidates.vcf''" and cnt: "?cnt = work @ ''/count.bed''"
    using wk by (simp_all add: join_plain startswith_def)
  let ?w2 = "w\<lparr>files := (files w)(?cand \<mapsto> File []), trace := trace w @ [SaveAs [] ?cand]\<rparr>"
  let ?w3 = "?w2\<lparr>files := (files ?w2)(?cnt \<mapsto> File []), trace := trace ?w2 @ [SaveAs [] ?cnt]\<rparr>"
  have p1: "parent_is_dir w ?cand"
    using wk dir by (intro parent_of_join) simp_all
  have s1: "saveas [] ?cand w = (Inr (), ?w2)"
    using p1 nd(1) by (rule saveas_ok)
  have "files ?w2 work = Some Dir" using dir by (simp add: cand)
  then have p2: "parent_is_dir ?w2 ?cnt"
    using wk by (intro parent_of_join) simp_all
  have n2: "files ?w2 ?cnt \<noteq> Some Dir" using nd(2) by (simp add: cand cnt)
  have s2: "saveas [] ?cnt ?w2 = (Inr (), ?w3)"
    using p2 n2 by (rule saveas_ok)
  have b: "BedTool split_region_file w = (Inr [], w)"
    using empty by (rule BedTool_ok)
  have x: "os_path_exists w work" using dir by (simp add: os_path_exists_def)
  have f3: "files ?w3 = files_before_indexing w work"
    using dir by (simp add: files_before_indexing_def)
  obtain e1 fs4 where t: "tabix_index env ?cnt (files_before_indexing w work) = (e1, fs4)"
    by (cases "tabix_index env ?cnt (files_before_indexing w work)") auto
  obtain e2 fs5 where c: "concatenate_files env [split_region_file]
                            (os_path_join work [''region.bed'']) fs4 = (e2, fs5)"
    by (cases "concatenate_files env [split_region_file] (os_path_join work [''region.bed'']) fs4")
       auto
  show ?thesis
    using bin x b s1 s2 f3 t c
    by (simp add: run_scan_alignments_def ext_call_eq seq_p_def bind_p_def
          split: option.splits)
qed


lemma worker_creates_dir:
  assumes bin: "os_path_exists w scan_alignments_binary"
      and absent: "files w work = None"
      and parent: "parent_is_dir w work"
  shows "run_scan_alignments env
           (work, reference, scan_alignments_binary, split_region_file, input_bam,
            window_size, maf, min_mapq, max_dp, calc_qual, num_threads) w =
         run_scan_alignments env
           (work, reference, scan_alignments_binary, split_region_file, input_bam,
            window_size, maf, min_mapq, max_dp, calc_qual, num_threads)
           (w\<lparr>files := (files w)(work \<mapsto> Dir), trace := trace w @ [Mkdir work]\<rparr>)"
proof -
  have ne: "scan_alignments_binary \<noteq> work"
    using bin absent by (auto simp: os_path_exists_def)
  obtain y where y: "files w scan_alignments_binary = Some y"
    using bin by (auto simp: os_path_exists_def)
  show ?thesis
    using y absent parent ne
    by (simp add: run_scan_alignments_def seq_p_def bind_p_def os_mkdir_ok os_path_exists_def)
qed

text \<open>
  Claim C6, as amended. For a unit whose region file has zero intervals, and provided the
  path of the binary exists: the worker never calls the external binary; whenever it
  returns a result, the result is the three output paths and the calls it made are, after
  creating the unit directory if it was absent, writing an empty \<^verbatim>\<open>candidates.vcf\<close>,
  writing an empty \<^verbatim>\<open>count.bed\<close>, \<^verbatim>\<open>tabix_index\<close> on the count table and
  \<^verbatim>\<open>concatenate_files\<close> of the region file into \<^verbatim>\<open>region.bed\<close>; and when the unit
  directory is usable, it returns the three paths exactly when these two calls of this
  run, indexing and concatenation, do not raise (and \<^verbatim>\<open>None\<close> otherwise).
\<close>

theorem worker_empty_region:
  assumes bin: "os_path_exists w scan_alignments_binary"
      and empty: "files w split_region_file = Some (File [])"
      and run: "run_scan_alignments env
                  (work, reference, scan_alignments_binary, split_region_file, input_bam,
                   window_size, maf, min_mapq, max_dp, calc_qual, num_threads) w = (r, w')"
  shows "(\<exists>evs. trace w' = trace w @ evs \<and> (\<forall>cmd. Shell cmd \<notin> set evs) \<and>
            (r = None \<or>
             (r = Some (os_path_join work [''candidates.vcf''],
                        os_path_join work [''count.bed.gz''],
                        os_path_join work [''region.bed'']) \<and>
              evs = (if os_path_exists w work then [] else [Mkdir work]) @
                    [SaveAs [] (os_path_join work [''candidates.vcf'']),
                     SaveAs [] (os_path_join work [''count.bed'']),
                     Tabix (os_path_join work [''count.bed'']),
                     Concat [split_region_file] (os_path_join work [''region.bed''])]))) \<and>
         ((files w work = Some Dir \<or> files w work = None \<and> parent_is_dir w work) \<and>
          work \<noteq> [] \<and> last work \<noteq> CHR ''/'' \<and>
          files w (os_path_join work [''candidates.vcf'']) \<noteq> Some Dir \<and>
          files w (os_path_join work [''count.bed'']) \<noteq> Some Dir \<longrightarrow>
          (r = Some (os_path_join work [''candidates.vcf''],
                     os_path_join work [''count.bed.gz''],
                     os_path_join work [''region.bed''])) =
          (fst (tabix_index env (os_path_join work [''count.bed''])
                  (files_before_indexing w work)) = None \<and>
           fst (concatenate_files env [split_region_file] (os_path_join work [''region.bed''])
                  (snd (tabix_index env (os_path_join work [''count.bed''])
                          (files_before_indexing w work)))) = None))"
proof (intro conjI impI)
  show "\<exists>evs. trace w' = trace w @ evs \<and> (\<forall>cmd. Shell cmd \<notin> set evs) \<and>
            (r = None \<or>
             (r = Some (os_path_join work [''candidates.vcf''],
                        os_path_join work [''count.bed.gz''],
                        os_path_join work [''region.bed'']) \<and>
              evs = (if os_path_exists w work then [] else [Mkdir work]) @
                    [SaveAs [] (os_path_join work [''candidates.vcf'']),
                     SaveAs [] (os_path_join work [''count.bed'']),
                     Tabix (os_path_join work [''count.bed'']),
                     Concat [split_region_file] (os_path_join work [''region.bed''])]))"
    using bin empty run by (rule worker_empty_region_shape)
next
  let ?a = "(work, reference, scan_alignments_binary, split_region_file, input_bam,
             window_size, maf, min_mapq, max_dp, calc_qual, num_threads)"
  let ?cand = "os_path_join work [''candidates.vcf'']"
  let ?cnt = "os_path_join work [''count.bed'']"
  let ?paths = "(?cand, os_path_join work [''count.bed.gz''], os_path_join work [''region.bed''])"
  let ?ok = "fst (tabix_index env ?cnt (files_before_indexing w work)) = None \<and>
             fst (concatenate_files env [split_region_file] (os_path_join work [''region.bed''])
                    (snd (tabix_index env ?cnt (files_before_indexing w work)))) = None"
  assume h: "(files w work = Some Dir \<or> files w work = None \<and> parent_is_dir w work) \<and>
          work \<noteq> [] \<and> last work \<noteq> CHR ''/'' \<and>
          files w ?cand \<noteq> Some Dir \<and> files w ?cnt \<noteq> Some Dir"
  then have wk: "work \<noteq> []" "last work \<noteq> CHR ''/''"
    and nd: "files w ?cand \<noteq> Some Dir" "files w ?cnt \<noteq> Some Dir"
    by simp_all
  have cand: "?cand = work @ ''/candidates.vcf''" and cnt: "?cnt = work @ ''/count.bed''"
    using wk by (simp_all add: join_plain startswith_def)
  from h have "files w work = Some Dir \<or> files w work = None \<and> parent_is_dir w work"
    by simp
  then consider "files w work = Some Dir" | "files w work = None" "parent_is_dir w work"
    by auto
  then have "fst (run_scan_alignments env ?a w) = (if ?ok then Some ?paths else None)"
  proof cases
    case 1
    then show ?thesis
      using bin empty wk nd by (intro worker_empty_region_in_dir)
  next
    case 2
    let ?w1 = "w\<lparr>files := (files w)(work \<mapsto> Dir), trace := trace w @ [Mkdir work]\<rparr>"
    have ne: "scan_alignments_binary \<noteq> work" "split_region_file \<noteq> work"
      using bin empty 2(1) by (auto simp: os_path_exists_def)
    have fb: "files_before_indexing ?w1 work = files_before_indexing w work"
      using 2(1) by (simp add: files_before_indexing_def)
    have "fst (run_scan_alignments env ?a ?w1) =
            (if fst (tabix_index env ?cnt (files_before_indexing ?w1 work)) = None \<and>
                fst (concatenate_files env [split_region_file] (os_path_join work [''region.bed''])
                       (snd (tabix_index env ?cnt (files_before_indexing ?w1 work)))) = None
             then Some ?paths else None)"
    proof (intro worker_empty_region_in_dir)
      show "os_path_exists ?w1 scan_alignments_binary"
        using bin ne by (simp add: os_path_exists_def)
      show "files ?w1 split_region_file = Some (File [])" using empty ne by simp
      show "files ?w1 work = Some Dir" by simp
      show "files ?w1 ?cand \<noteq> Some Dir" using nd(1) by (simp add: cand)
      show "files ?w1 ?cnt \<noteq> Some Dir" using nd(2) by (simp add: cnt)
    qed (use wk in simp_all)
    then show ?thesis
      unfolding fb using worker_creates_dir[OF bin 2(1) 2(2)] by simp
  qed
  then show "(r = Some ?paths) = ?ok"
    using run by (auto split: if_splits)
qed


theorem worker_empty_region_witness:
  "os_path_exists world_fresh ''bin'' \<and> files world_fresh ''r1.bed'' = Some (File []) \<and>
   fst (run_scan_alignments example_env
          (''w/work.1'', ''ref.fa'', ''bin'', ''r1.bed'', ''in.bam'', 2000, 1 / 100, 1, 40000, True, 1)
          world_fresh) =
     Some (''w/work.1/candidates.vcf'', ''w/work.1/count.bed.gz'', ''w/work.1/region.bed'') \<and>
   trace (snd (run_scan_alignments example_env
          (''w/work.1'', ''ref.fa'', ''bin'', ''r1.bed'', ''in.bam'', 2000, 1 / 100, 1, 40000, True, 1)
          world_fresh)) =
     [Mkdir ''w/work.1'', SaveAs [] ''w/work.1/candidates.vcf'', SaveAs [] ''w/work.1/count.bed'',
      Tabix ''w/work.1/count.bed'', Concat [''r1.bed''] ''w/work.1/region.bed'']"
proof -
  let ?a = "(''w/work.1'', ''ref.fa'', ''bin'', ''r1.bed'', ''in.bam'', 2000, 1 / 100, 1, 40000, True, 1)"
  have b: "os_path_exists world_fresh ''bin''"
    and e: "files world_fresh ''r1.bed'' = Some (File [])"
    by (simp_all add: world_fresh_def os_path_exists_def)
  have run: "run_scan_alignments example_env ?a world_fresh =
             (fst (run_scan_alignments example_env ?a world_fresh),
              snd (run_scan_alignments example_env ?a world_fresh))"
    by simp
  have d: "os_path_dirname ''w/work.1'' = ''w''"
    by (simp add: os_path_dirname_def)
  have ok: "(files world_fresh ''w/work.1'' = Some Dir \<or>
             files world_fresh ''w/work.1'' = None \<and> parent_is_dir world_fresh ''w/work.1'') \<and>
            ''w/work.1'' \<noteq> [] \<and> last ''w/work.1'' \<noteq> CHR ''/'' \<and>
            files world_fresh (os_path_join ''w/work.1'' [''candidates.vcf'']) \<noteq> Some Dir \<and>
            files world_fresh (os_path_join ''w/work.1'' [''count.bed'']) \<noteq> Some Dir"
    using d by (simp add: world_fresh_def parent_is_dir_def os_path_join_def
          join_step_def startswith_def)
  have steps: "fst (tabix_index example_env (os_path_join ''w/work.1'' [''count.bed''])
                      (files_before_indexing world_fresh ''w/work.1'')) = None \<and>
               fst (concatenate_files example_env [''r1.bed'']
                      (os_path_join ''w/work.1'' [''region.bed''])
                      (snd (tabix_index example_env (os_path_join ''w/work.1'' [''count.bed''])
                              (files_before_indexing world_fresh ''w/work.1'')))) = None"
    by (simp add: example_env_def files_before_indexing_def world_fresh_def os_path_join_def
          join_step_def startswith_def)
  have x: "\<not> os_path_exists world_fresh ''w/work.1''"
    by (simp add: world_fresh_def os_path_exists_def)
  from worker_empty_region [OF b e run] ok steps x
  have "fst (run_scan_alignments example_env ?a world_fresh) =
          Some (os_path_join ''w/work.1'' [''candidates.vcf''],
                os_path_join ''w/work.1'' [''count.bed.gz''],
                os_path_join ''w/work.1'' [''region.bed''])"
    and "\<exists>evs. trace (snd (run_scan_alignments example_env ?a world_fresh)) =
                 trace world_fresh @ evs \<and>
               (fst (run_scan_alignments example_env ?a world_fresh) = None \<or>
                evs = [Mkdir ''w/work.1''] @
                    [SaveAs [] (os_path_join ''w/work.1'' [''candidates.vcf'']),
                     SaveAs [] (os_path_join ''w/work.1'' [''count.bed'']),
                     Tabix (os_path_join ''w/work.1'' [''count.bed'']),
                     Concat [''r1.bed''] (os_path_join ''w/work.1'' [''region.bed''])])"
    by auto
  then show ?thesis
    using b e by (auto simp: os_path_join_def join_step_def startswith_def world_fresh_def)
qed

text \<open>
  The claim as stated fails when the binary is missing: the region file has zero
  intervals, and the worker returns \<^verbatim>\<open>None\<close> instead of the three paths.
\<close>

theorem worker_empty_region_counterexample:
  "BedTool ''r1.bed'' world_no_binary = (Inr [], world_no_binary) \<and>
   fst (run_scan_alignments example_env
          (''w/work.1'', ''ref.fa'', ''bin'', ''r1.bed'', ''in.bam'', 2000, 1 / 100, 1, 40000, True, 1)
          world_no_binary) = None \<and>
   trace (snd (run_scan_alignments example_env
          (''w/work.1'', ''ref.fa'', ''bin'', ''r1.bed'', ''in.bam'', 2000, 1 / 100, 1, 40000, True, 1)
          world_no_binary)) = []"
  by (simp add: run_scan_alignments_def world_no_binary_def os_path_exists_def BedTool_def)

subsection \<open>The classification loop\<close>

lemma name_not_abs:
  "\<not> startswith ''region.bed'' ''/''" "\<not> startswith ''candidates.vcf'' ''/''"
  "\<not> startswith ''count.bed.gz'' ''/''"
  by (simp_all add: startswith_def)

lemma pending_frame:
  assumes "\<And>p. \<not> path_under (work_i a n) p \<Longrightarrow> files w1 p = files w p" "i \<noteq> n"
  shows "pending a w1 i = pending a w i"
proof -
  have "files w1 (unit_file a i name) = files w (unit_file a i name)"
    if "\<not> startswith name ''/''" for name
    using assms under_work_i_unit_file[of a n i name] that by blast
  then show ?thesis
    by (simp add: pending_def os_path_exists_def name_not_abs)
qed

lemma exists_work_frame:
  assumes "\<And>p. \<not> path_under (work_i a n) p \<Longrightarrow> files w1 p = files w p" "i \<noteq> n"
  shows "os_path_exists w1 (work_i a i) = os_path_exists w (work_i a i)"
proof -
  have "files w1 (work_i a i) = files w (work_i a i)"
    using assms under_work_i_work_i[of a n i] by blast
  then show ?thesis by (simp add: os_path_exists_def)
qed

lemma rmtree_ok_cases:
  assumes "shutil_rmtree p w = (Inr u, w1)"
  shows "files w1 = (\<lambda>q. if path_under p q then None else files w q)"
    and "trace w1 = trace w @ [Rmtree p]"
  using assms by (auto simp: shutil_rmtree_def split: if_splits)

text \<open>What one pending unit does to the world before it is queued.\<close>

lemma clear_unit_dir:
  assumes "(if os_path_exists w d then shutil_rmtree d w else return_p () w) = (Inr u, w1)"
  shows "\<And>q. files w1 q = (if path_under d q then (if os_path_exists w d then None else files w q) else files w q)"
    and "trace w1 = trace w @ (if os_path_exists w d then [Rmtree d] else [])"
  using assms by (auto split: if_splits dest: rmtree_ok_cases)


lemma classify_Nil:
  "classify a [] st w = (r, w') \<Longrightarrow> r = Inr st \<and> w' = w"
  by (cases st) auto

lemma classify_Cons_pending:
  assumes "pending a w i"
  shows "classify a ((i, f) # rest) (ma, ao, nd) w =
         bind_p (\<lambda>w. if os_path_exists w (work_i a i)
                      then shutil_rmtree (work_i a i) w else return_p () w)
                (\<lambda>_. classify a rest (ma @ [unit_args_of a i f], ao, nd @ [i])) w"
  using assms by simp

lemma classify_Cons_done:
  assumes "\<not> pending a w i"
  shows "classify a ((i, f) # rest) (ma, ao, nd) w =
         classify a rest (ma, ao[i := PyList (unit_outputs a i)], nd) w"
  using assms by simp

lemma upt_Cons_len: "[n..<n + length (f # fs)] = n # [Suc n..<Suc n + length fs]"
  by (subst upt_rec) simp

lemma classify_spec:
  "classify a (enumerate n fs) (ma, ao, nd) w = (Inr (ma', ao', nd'), w') \<Longrightarrow>
   nd' = nd @ filter (pending a w) [n..<n + length fs] \<and>
   ma' = ma @ map (\<lambda>i. unit_args_of a i (fs ! (i - n))) (filter (pending a w) [n..<n + length fs]) \<and>
   length ao' = length ao \<and>
   (\<forall>i < length ao. ao' ! i =
      (if n \<le> i \<and> i < n + length fs \<and> \<not> pending a w i
       then PyList (unit_outputs a i) else ao ! i)) \<and>
   (\<forall>p. files w' p =
      (if \<exists>i. n \<le> i \<and> i < n + length fs \<and> pending a w i \<and>
               os_path_exists w (work_i a i) \<and> path_under (work_i a i) p
       then None else files w p)) \<and>
   trace w' = trace w @ map (\<lambda>i. Rmtree (work_i a i))
                (filter (\<lambda>i. pending a w i \<and> os_path_exists w (work_i a i)) [n..<n + length fs])"
proof (induction fs arbitrary: n ma ao nd w)
  case Nil
  then show ?case by (auto dest: classify_Nil)
next
  case (Cons f fs)
  note upt_Suc [simp del]
  let ?m = "Suc n + length fs"
  let ?E = "\<lambda>w i. pending a w i \<and> os_path_exists w (work_i a i)"
  have rng: "(n \<le> i \<and> i < n + length (f # fs) \<and> Q) = ((i = n \<or> Suc n \<le> i \<and> i < ?m) \<and> Q)"
    for i Q by auto
  have nth_shift: "unit_args_of a i ((f # fs) ! (i - n)) = unit_args_of a i (fs ! (i - Suc n))"
    if "i \<in> set (filter P [Suc n..<?m])" for i P
  proof -
    from that have "Suc n \<le> i" by simp
    then have "i - n = Suc (i - Suc n)" by arith
    then show ?thesis by simp
  qed
  show ?case
  proof (cases "pending a w n")
    case False
    with Cons.prems
    have rec: "classify a (enumerate (Suc n) fs) (ma, ao[n := PyList (unit_outputs a n)], nd) w =
               (Inr (ma', ao', nd'), w')"
      by (simp del: classify.simps add: classify_Cons_done)
    note ih = Cons.IH[OF rec]
    have f1: "filter (pending a w) [n..<n + length (f # fs)] = filter (pending a w) [Suc n..<?m]"
      unfolding upt_Cons_len using False by simp
    have f2: "filter (?E w) [n..<n + length (f # fs)] = filter (?E w) [Suc n..<?m]"
      unfolding upt_Cons_len using False by simp
    have c1: "nd' = nd @ filter (pending a w) [n..<n + length (f # fs)]"
      unfolding f1 using ih by simp
    have c2: "ma' = ma @ map (\<lambda>i. unit_args_of a i ((f # fs) ! (i - n)))
                          (filter (pending a w) [n..<n + length (f # fs)])"
    proof -
      have "map (\<lambda>i. unit_args_of a i ((f # fs) ! (i - n))) (filter (pending a w) [Suc n..<?m]) =
            map (\<lambda>i. unit_args_of a i (fs ! (i - Suc n))) (filter (pending a w) [Suc n..<?m])"
        by (rule map_cong[OF refl]) (rule nth_shift)
      then show ?thesis unfolding f1 using ih by simp
    qed
    have c3: "length ao' = length ao" using ih by simp
    have c4: "\<forall>i < length ao. ao' ! i =
                (if n \<le> i \<and> i < n + length (f # fs) \<and> \<not> pending a w i
                 then PyList (unit_outputs a i) else ao ! i)"
    proof (intro allI impI)
      fix i assume i: "i < length ao"
      from ih i have x: "ao' ! i = (if Suc n \<le> i \<and> i < ?m \<and> \<not> pending a w i
                 then PyList (unit_outputs a i) else ao[n := PyList (unit_outputs a n)] ! i)"
        by simp
      show "ao' ! i = (if n \<le> i \<and> i < n + length (f # fs) \<and> \<not> pending a w i
                 then PyList (unit_outputs a i) else ao ! i)"
        unfolding x rng using i False by (cases "i = n") auto
    qed
    have c5: "\<forall>p. files w' p =
      (if \<exists>i. n \<le> i \<and> i < n + length (f # fs) \<and> pending a w i \<and>
               os_path_exists w (work_i a i) \<and> path_under (work_i a i) p
       then None else files w p)"
    proof
      fix p
      have "(\<exists>i. n \<le> i \<and> i < n + length (f # fs) \<and> pending a w i \<and>
               os_path_exists w (work_i a i) \<and> path_under (work_i a i) p) =
            (\<exists>i. Suc n \<le> i \<and> i < ?m \<and> pending a w i \<and>
               os_path_exists w (work_i a i) \<and> path_under (work_i a i) p)"
        unfolding rng using False by auto
      then show "files w' p =
        (if \<exists>i. n \<le> i \<and> i < n + length (f # fs) \<and> pending a w i \<and>
               os_path_exists w (work_i a i) \<and> path_under (work_i a i) p
         then None else files w p)"
        using ih by simp
    qed
    have c6: "trace w' = trace w @ map (\<lambda>i. Rmtree (work_i a i))
                (filter (?E w) [n..<n + length (f # fs)])"
      unfolding f2 using ih by simp
    show ?thesis by (intro conjI c1 c2 c3 c4 c5 c6)
  next
    case True
    from Cons.prems True obtain u w1 where
      c: "(if os_path_exists w (work_i a n) then shutil_rmtree (work_i a n) w else return_p () w) =
          (Inr u, w1)"
      and rec: "classify a (enumerate (Suc n) fs) (ma @ [unit_args_of a n f], ao, nd @ [n]) w1 =
                (Inr (ma', ao', nd'), w')"
      by (auto simp del: classify.simps simp add: classify_Cons_pending elim!: bind_pE)
    note ih = Cons.IH[OF rec]
    note cl = clear_unit_dir[OF c]
    have frame: "files w1 p = files w p" if "\<not> path_under (work_i a n) p" for p
      using cl(1)[of p] that by simp
    have pe: "pending a w1 i = pending a w i"
      and we: "os_path_exists w1 (work_i a i) = os_path_exists w (work_i a i)" if "i \<noteq> n" for i
      using pending_frame[of a n w1 w i] exists_work_frame[of a n w1 w i] frame that by blast+
    have g1: "filter (pending a w1) [Suc n..<?m] = filter (pending a w) [Suc n..<?m]"
      by (rule filter_cong[OF refl]) (use pe in auto)
    have g2: "filter (?E w1) [Suc n..<?m] = filter (?E w) [Suc n..<?m]"
      by (rule filter_cong[OF refl]) (use pe we in auto)
    have f1: "filter (pending a w) [n..<n + length (f # fs)] = n # filter (pending a w) [Suc n..<?m]"
      unfolding upt_Cons_len using True by simp
    have f2: "filter (?E w) [n..<n + length (f # fs)] =
              (if os_path_exists w (work_i a n) then [n] else []) @ filter (?E w) [Suc n..<?m]"
      unfolding upt_Cons_len using True by simp
    have c1: "nd' = nd @ filter (pending a w) [n..<n + length (f # fs)]"
      unfolding f1 using ih g1 by simp
    have c2: "ma' = ma @ map (\<lambda>i. unit_args_of a i ((f # fs) ! (i - n)))
                          (filter (pending a w) [n..<n + length (f # fs)])"
    proof -
      have "map (\<lambda>i. unit_args_of a i ((f # fs) ! (i - n))) (filter (pending a w) [Suc n..<?m]) =
            map (\<lambda>i. unit_args_of a i (fs ! (i - Suc n))) (filter (pending a w) [Suc n..<?m])"
        by (rule map_cong[OF refl]) (rule nth_shift)
      then show ?thesis unfolding f1 using ih g1 by simp
    qed
    have c3: "length ao' = length ao" using ih by simp
    have c4: "\<forall>i < length ao. ao' ! i =
                (if n \<le> i \<and> i < n + length (f # fs) \<and> \<not> pending a w i
                 then PyList (unit_outputs a i) else ao ! i)"
    proof (intro allI impI)
      fix i assume i: "i < length ao"
      from ih i have x: "ao' ! i = (if Suc n \<le> i \<and> i < ?m \<and> \<not> pending a w1 i
                 then PyList (unit_outputs a i) else ao ! i)"
        by simp
      show "ao' ! i = (if n \<le> i \<and> i < n + length (f # fs) \<and> \<not> pending a w i
                 then PyList (unit_outputs a i) else ao ! i)"
      proof (cases "i = n")
        case e: True
        then show ?thesis unfolding x rng using True by simp
      next
        case ne: False
        then show ?thesis unfolding x rng using pe[OF ne] by simp
      qed
    qed
    have c5: "\<forall>p. files w' p =
      (if \<exists>i. n \<le> i \<and> i < n + length (f # fs) \<and> pending a w i \<and>
               os_path_exists w (work_i a i) \<and> path_under (work_i a i) p
       then None else files w p)"
    proof
      fix p
      let ?later = "\<exists>i. Suc n \<le> i \<and> i < ?m \<and> pending a w i \<and>
                        os_path_exists w (work_i a i) \<and> path_under (work_i a i) p"
      have l: "(\<exists>i. Suc n \<le> i \<and> i < ?m \<and> pending a w1 i \<and>
                    os_path_exists w1 (work_i a i) \<and> path_under (work_i a i) p) = ?later"
        using pe we by (metis Suc_n_not_le_n)
      have sp: "(\<exists>i. n \<le> i \<and> i < n + length (f # fs) \<and> pending a w i \<and>
                    os_path_exists w (work_i a i) \<and> path_under (work_i a i) p) =
                ((os_path_exists w (work_i a n) \<and> path_under (work_i a n) p) \<or> ?later)"
        unfolding rng using True by auto
      have "files w' p = (if ?later then None else files w1 p)"
        using ih l by simp
      then show "files w' p =
        (if \<exists>i. n \<le> i \<and> i < n + length (f # fs) \<and> pending a w i \<and>
               os_path_exists w (work_i a i) \<and> path_under (work_i a i) p
         then None else files w p)"
        unfolding sp using cl(1)[of p] by (auto simp: os_path_exists_def)
    qed
    have c6: "trace w' = trace w @ map (\<lambda>i. Rmtree (work_i a i))
                (filter (?E w) [n..<n + length (f # fs)])"
      unfolding f2 using ih g2 cl(2) by simp
    show ?thesis by (intro conjI c1 c2 c3 c4 c5 c6)
  qed
qed

subsection \<open>Events of a computation\<close>

lemma emitsI:
  assumes "\<And>w r w'. m w = (r, w') \<Longrightarrow> \<exists>evs. trace w' = trace w @ evs \<and> list_all P evs"
  shows "emits P m"
  using assms by (auto simp: emits_def)

lemma emitsD:
  assumes "emits P m" "m w = (r, w')"
  obtains evs where "trace w' = trace w @ evs" "list_all P evs"
proof -
  from assms have "\<exists>evs. trace w' = trace w @ evs \<and> list_all P evs"
    unfolding emits_def by blast
  then show ?thesis using that by blast
qed

lemma emits_mono: "emits P m \<Longrightarrow> (\<And>e. P e \<Longrightarrow> Q e) \<Longrightarrow> emits Q m"
  by (auto simp: emits_def list_all_iff) blast

lemma emits_return [intro!]: "emits P (return_p x)"
  by (auto simp: emits_def)

lemma emits_raise [intro!]: "emits P (raise_p e)"
  by (auto simp: emits_def)

lemma emits_bind [intro!]:
  assumes "emits P m" "\<And>x. emits P (f x)"
  shows "emits P (bind_p m f)"
proof (rule emitsI)
  fix w r w' assume "bind_p m f w = (r, w')"
  then show "\<exists>evs. trace w' = trace w @ evs \<and> list_all P evs"
  proof (cases rule: bind_pE)
    case (1 e)
    with assms(1) show ?thesis by (auto elim: emitsD)
  next
    case (2 x w1)
    from assms(1) 2(1) obtain e1 where e1: "trace w1 = trace w @ e1" "list_all P e1"
      by (rule emitsD)
    from assms(2) 2(2) obtain e2 where e2: "trace w' = trace w1 @ e2" "list_all P e2"
      by (rule emitsD)
    from e1 e2 show ?thesis by auto
  qed
qed

lemma emits_seq [intro!]: "emits P m \<Longrightarrow> emits P n \<Longrightarrow> emits P (seq_p m n)"
  unfolding seq_p_def by (rule emits_bind)

lemma emits_cond [intro!]:
  "emits P m \<Longrightarrow> emits P n \<Longrightarrow> emits P (\<lambda>w. if c w then m w else n w)"
  by (auto simp: emits_def)

lemma emits_if [intro!]: "emits P m \<Longrightarrow> emits P n \<Longrightarrow> emits P (if c then m else n)"
  by simp

lemma emits_os_mkdir [intro!]: "P (Mkdir p) \<Longrightarrow> emits P (os_mkdir p)"
  by (rule emitsI) (auto dest: os_mkdir_trace)


lemma emits_saveas [intro!]: "P (SaveAs ivs p) \<Longrightarrow> emits P (saveas ivs p)"
  by (rule emitsI) (auto dest: saveas_trace)

lemma emits_ext_call [intro!]: "P ev \<Longrightarrow> emits P (ext_call ev op)"
  by (rule emitsI) (auto dest: ext_call_trace)

lemma emits_BedTool [intro!]: "emits P (BedTool fn)"
  by (rule emitsI) (auto dest: BedTool_world)

lemma emits_worker_try: "emits worker_event (run_scan_alignments_try env a)"
proof -
  obtain work reference scan_alignments_binary split_region_file input_bam window_size maf
    min_mapq max_dp calc_qual num_threads
    where a: "a = (work, reference, scan_alignments_binary, split_region_file, input_bam,
                   window_size, maf, min_mapq, max_dp, calc_qual, num_threads)"
    by (metis surj_pair)
  show ?thesis
    unfolding a run_scan_alignments_try.simps
    by (intro emits_seq emits_bind emits_cond emits_if emits_return emits_raise emits_os_mkdir
          emits_saveas emits_ext_call emits_BedTool) simp_all
qed

lemma emits_worker: "emits worker_event (run_scan_alignments env a)"
proof (rule emitsI)
  fix w r w' assume "run_scan_alignments env a w = (r, w')"
  then show "\<exists>evs. trace w' = trace w @ evs \<and> list_all worker_event evs"
    by (cases rule: worker_result_cases) (auto elim: emitsD[OF emits_worker_try])
qed

text \<open>A worker that returns a result returns the three paths of its directory.\<close>

lemma worker_result:
  assumes "run_scan_alignments env
             (work, reference, scan_alignments_binary, split_region_file, input_bam,
              window_size, maf, min_mapq, max_dp, calc_qual, num_threads) w = (Some t, w')"
  shows "t = (os_path_join work [''candidates.vcf''], os_path_join work [''count.bed.gz''],
              os_path_join work [''region.bed''])"
proof -
  from assms have "run_scan_alignments_try env
             (work, reference, scan_alignments_binary, split_region_file, input_bam,
              window_size, maf, min_mapq, max_dp, calc_qual, num_threads) w = (Inr t, w')"
    by (auto elim: worker_result_cases)
  then show ?thesis
    unfolding run_scan_alignments_try.simps
    by (elim seq_pE bind_pE) auto
qed

lemma worker_result_unit:
  assumes "run_scan_alignments env (unit_args_of a i f) w = (r, w')"
  shows "r = None \<or> output_paths (output_of r) = unit_outputs a i"
proof (cases r)
  case None
  then show ?thesis by simp
next
  case (Some t)
  with assms have "t = (os_path_join (work_i a i) [''candidates.vcf''],
                        os_path_join (work_i a i) [''count.bed.gz''],
                        os_path_join (work_i a i) [''region.bed''])"
    unfolding unit_args_of_def by (auto dest: worker_result)
  with Some show ?thesis
    by (simp add: unit_outputs_def unit_file_join)
qed

subsection \<open>The checks on the outputs\<close>

lemma check_outputs_Inr: "(check_outputs outputs = Inr u) = (None \<notin> set outputs)"
  by (induction outputs rule: check_outputs.induct) auto

lemma check_outputs_Inl:
  "(check_outputs outputs = Inl e) =
   (None \<in> set outputs \<and> e = PyException ''scan_alignments failed!'')"
  by (induction outputs rule: check_outputs.induct) auto

lemma assign_outputs_length [simp]: "length (assign_outputs ps ao) = length ao"
  by (induction ps ao rule: assign_outputs.induct) auto

lemma assign_outputs_other:
  "i \<notin> fst ` set ps \<Longrightarrow> assign_outputs ps ao ! i = ao ! i"
  by (induction ps ao rule: assign_outputs.induct) auto

lemma assign_outputs_hit:
  "distinct (map fst ps) \<Longrightarrow> (i, out) \<in> set ps \<Longrightarrow> i < length ao \<Longrightarrow>
   assign_outputs ps ao ! i = output_of out"
proof (induction ps ao rule: assign_outputs.induct)
  case (1 all_outputs)
  then show ?case by simp
next
  case (2 j out2 rest all_outputs)
  show ?case
  proof (cases "(i, out) = (j, out2)")
    case True
    with 2 have "i \<notin> fst ` set rest" by auto
    with True 2(4) show ?thesis by (simp add: assign_outputs_other)
  next
    case False
    with 2 show ?thesis by auto
  qed
qed

subsection \<open>The pool\<close>

lemma completion_order_set: "set (completion_order n order) = {..<n}"
  by (auto simp: completion_order_def)

lemma completion_order_distinct: "distinct (completion_order n order)"
  by (auto simp: completion_order_def)

text \<open>A list that already is a permutation of the unit numbers is the completion order.\<close>

lemma completion_order_perm:
  assumes "distinct order" "set order = {..<n}"
  shows "completion_order n order = order"
proof -
  have "filter (\<lambda>k. k < n) order = order" using assms(2) by (auto intro: filter_True)
  moreover have "filter (\<lambda>k. k \<notin> set order) [0..<n] = []" using assms(2) by (auto simp: filter_empty_conv)
  ultimately show ?thesis using assms(1) by (simp add: completion_order_def)
qed

lemma run_units_spec:
  "run_units env ma ks outs w = (outs', w') \<Longrightarrow> \<forall>k \<in> set ks. k < length outs \<Longrightarrow>
   length outs' = length outs \<and>
   (\<forall>k < length outs. k \<notin> set ks \<longrightarrow> outs' ! k = outs ! k) \<and>
   (\<forall>k \<in> set ks. \<exists>w1 w2. run_scan_alignments env (ma ! k) w1 = (outs' ! k, w2)) \<and>
   (\<exists>evs. trace w' = trace w @ evs \<and> (\<forall>k \<in> set ks. Worker (ma ! k) \<in> set evs) \<and>
          list_all (\<lambda>e. worker_event e \<or> (\<exists>k \<in> set ks. e = Worker (ma ! k))) evs)"
proof (induction ks arbitrary: outs w)
  case Nil
  then show ?case by simp
next
  case (Cons k ks)
  let ?w0 = "w\<lparr>trace := trace w @ [Worker (ma ! k)]\<rparr>"
  obtain r w1 where r: "run_scan_alignments env (ma ! k) ?w0 = (r, w1)"
    by (cases "run_scan_alignments env (ma ! k) ?w0") auto
  with Cons.prems(1) have rec: "run_units env ma ks (outs[k := r]) w1 = (outs', w')"
    by simp
  from Cons.prems(2) have kl: "k < length outs" and ksl: "\<forall>j \<in> set ks. j < length (outs[k := r])"
    by simp_all
  note ih = Cons.IH[OF rec ksl]
  from emits_worker r obtain e1 where e1: "trace w1 = trace ?w0 @ e1" "list_all worker_event e1"
    by (rule emitsD)
  from ih obtain e2 where e2: "trace w' = trace w1 @ e2"
    "\<forall>j \<in> set ks. Worker (ma ! j) \<in> set e2"
    "list_all (\<lambda>e. worker_event e \<or> (\<exists>j \<in> set ks. e = Worker (ma ! j))) e2"
    by blast
  have c1: "length outs' = length outs" using ih by simp
  have c2: "\<forall>j < length outs. j \<notin> set (k # ks) \<longrightarrow> outs' ! j = outs ! j"
    using ih by auto
  have c3: "\<forall>j \<in> set (k # ks). \<exists>w1 w2. run_scan_alignments env (ma ! j) w1 = (outs' ! j, w2)"
  proof
    fix j assume j: "j \<in> set (k # ks)"
    show "\<exists>w1 w2. run_scan_alignments env (ma ! j) w1 = (outs' ! j, w2)"
    proof (cases "j \<in> set ks")
      case True
      with ih show ?thesis by blast
    next
      case False
      with j have jk: "j = k" by simp
      with False ih kl have "outs' ! j = r" by simp
      with r jk show ?thesis by blast
    qed
  qed
  have c4: "\<exists>evs. trace w' = trace w @ evs \<and> (\<forall>j \<in> set (k # ks). Worker (ma ! j) \<in> set evs) \<and>
          list_all (\<lambda>e. worker_event e \<or> (\<exists>j \<in> set (k # ks). e = Worker (ma ! j))) evs"
  proof (intro exI[of _ "Worker (ma ! k) # e1 @ e2"] conjI)
    show "trace w' = trace w @ Worker (ma ! k) # e1 @ e2" using e1 e2 by simp
    show "\<forall>j \<in> set (k # ks). Worker (ma ! j) \<in> set (Worker (ma ! k) # e1 @ e2)"
      using e2(2) by auto
    show "list_all (\<lambda>e. worker_event e \<or> (\<exists>j \<in> set (k # ks). e = Worker (ma ! j)))
            (Worker (ma ! k) # e1 @ e2)"
      using e1(2) e2(3) by (auto simp: list_all_iff)
  qed
  show ?case by (intro conjI c1 c2 c3 c4)
qed

subsection \<open>The dispatcher\<close>

lemma dispatch_cases:
  assumes "dispatch env a order fs w = (r, w')"
  obtains (classify_failed) e where
      "classify a (enumerate 0 fs) ([], replicate (length fs) (PyList []), []) w = (Inl e, w')"
      "r = Inl e"
  | (no_pool) ma ao nd where
      "classify a (enumerate 0 fs) ([], replicate (length fs) (PyList []), []) w =
         (Inr (ma, ao, nd), w')"
      "arg_num_threads a < 1" "r = Inl ValueError"
  | (ran) ma ao nd w1 outs where
      "classify a (enumerate 0 fs) ([], replicate (length fs) (PyList []), []) w =
         (Inr (ma, ao, nd), w1)"
      "1 \<le> arg_num_threads a"
      "pool_map_async_get env order ma w1 = (outs, w')"
      "r = (case check_outputs outs of Inl e \<Rightarrow> Inl e
            | Inr u \<Rightarrow> Inr (assign_outputs (zip nd outs) ao))"
  using assms unfolding dispatch_def
  by (elim bind_pE) (auto split: if_splits prod.splits sum.splits)

text \<open>The three lists after the loop, for the whole list of split files.\<close>

lemma classify_all:
  assumes "classify a (enumerate 0 fs) ([], replicate (length fs) (PyList []), []) w =
             (Inr (ma, ao, nd), w1)"
  shows "nd = filter (pending a w) [0..<length fs]"
    and "ma = map (\<lambda>i. unit_args_of a i (fs ! i)) nd"
    and "length ao = length fs"
    and "\<And>i. i < length fs \<Longrightarrow>
           ao ! i = (if pending a w i then PyList [] else PyList (unit_outputs a i))"
    and "\<And>p. files w1 p =
           (if \<exists>i < length fs. pending a w i \<and> os_path_exists w (work_i a i) \<and>
                  path_under (work_i a i) p
            then None else files w p)"
    and "trace w1 = trace w @ map (\<lambda>i. Rmtree (work_i a i))
           (filter (\<lambda>i. pending a w i \<and> os_path_exists w (work_i a i)) [0..<length fs])"
proof -
  note s = classify_spec[OF assms]
  show nd: "nd = filter (pending a w) [0..<length fs]" using s by simp
  show "ma = map (\<lambda>i. unit_args_of a i (fs ! i)) nd" using s nd by simp
  show "length ao = length fs" using s by simp
  show "ao ! i = (if pending a w i then PyList [] else PyList (unit_outputs a i))"
    if "i < length fs" for i
    using s that by simp
  show "files w1 p =
           (if \<exists>i < length fs. pending a w i \<and> os_path_exists w (work_i a i) \<and>
                  path_under (work_i a i) p
            then None else files w p)" for p
    using s by simp
  show "trace w1 = trace w @ map (\<lambda>i. Rmtree (work_i a i))
           (filter (\<lambda>i. pending a w i \<and> os_path_exists w (work_i a i)) [0..<length fs])"
    using s by simp
qed

lemma pool_spec:
  assumes "pool_map_async_get env order ma w = (outs, w')"
  shows "length outs = length ma"
    and "\<And>k. k < length ma \<Longrightarrow> \<exists>w1 w2. run_scan_alignments env (ma ! k) w1 = (outs ! k, w2)"
    and "\<exists>evs. trace w' = trace w @ evs \<and> (\<forall>k < length ma. Worker (ma ! k) \<in> set evs) \<and>
           list_all (\<lambda>e. worker_event e \<or> (\<exists>k < length ma. e = Worker (ma ! k))) evs"
proof -
  let ?ks = "completion_order (length ma) order"
  have ks: "set ?ks = {..<length ma}" by (rule completion_order_set)
  have run: "run_units env ma ?ks (replicate (length ma) None) w = (outs, w')"
    using assms by (simp add: pool_map_async_get_def)
  have bound: "\<forall>k \<in> set ?ks. k < length (replicate (length ma) (None :: unit_result option))"
    using ks by simp
  note s = run_units_spec[OF run bound]
  show "length outs = length ma" using s by simp
  show "\<exists>w1 w2. run_scan_alignments env (ma ! k) w1 = (outs ! k, w2)" if "k < length ma" for k
    using s that ks by blast
  show "\<exists>evs. trace w' = trace w @ evs \<and> (\<forall>k < length ma. Worker (ma ! k) \<in> set evs) \<and>
           list_all (\<lambda>e. worker_event e \<or> (\<exists>k < length ma. e = Worker (ma ! k))) evs"
    using s unfolding ks by (simp add: Ball_def Bex_def)
qed

lemma output_of_tuple: "r \<noteq> None \<Longrightarrow> \<exists>t. output_of r = PyTuple t"
  by (cases r) auto

lemma dispatch_result:
  assumes "dispatch env a order fs w = (Inr res, w')"
  shows "length res = length fs"
    and "\<And>i. i < length fs \<Longrightarrow> pending a w i \<Longrightarrow>
           (\<exists>t. res ! i = PyTuple t) \<and> output_paths (res ! i) = unit_outputs a i \<and>
           Worker (unit_args_of a i (fs ! i)) \<in> set (trace w')"
    and "\<And>i. i < length fs \<Longrightarrow> \<not> pending a w i \<Longrightarrow> res ! i = PyList (unit_outputs a i)"
proof -
  from assms obtain ma ao nd w1 outs where
    cl: "classify a (enumerate 0 fs) ([], replicate (length fs) (PyList []), []) w =
           (Inr (ma, ao, nd), w1)"
    and pool: "pool_map_async_get env order ma w1 = (outs, w')"
    and r: "Inr res = (case check_outputs outs of Inl e \<Rightarrow> Inl e
                       | Inr u \<Rightarrow> Inr (assign_outputs (zip nd outs) ao))"
    by (cases rule: dispatch_cases) auto
  note c = classify_all[OF cl]
  note p = pool_spec[OF pool]
  from r have ok: "None \<notin> set outs" and res: "res = assign_outputs (zip nd outs) ao"
    using check_outputs_Inr[of outs] by (auto split: sum.splits)
  have len: "length outs = length nd" using p(1) c(2) by simp
  have dist: "distinct (map fst (zip nd outs))"
    using len c(1) by simp
  show "length res = length fs" using res c(3) by simp
  show "res ! i = PyList (unit_outputs a i)" if "i < length fs" "\<not> pending a w i" for i
  proof -
    have "i \<notin> set nd" using that c(1) by simp
    then have "i \<notin> fst ` set (zip nd outs)" using len by (auto dest: set_zip_leftD)
    then have "res ! i = ao ! i" unfolding res by (rule assign_outputs_other)
    then show ?thesis using c(4)[OF that(1)] that(2) by simp
  qed
  show "(\<exists>t. res ! i = PyTuple t) \<and> output_paths (res ! i) = unit_outputs a i \<and>
        Worker (unit_args_of a i (fs ! i)) \<in> set (trace w')"
    if "i < length fs" "pending a w i" for i
  proof -
    have "i \<in> set nd" using that c(1) by simp
    then obtain k where k: "k < length nd" "nd ! k = i" by (auto simp: in_set_conv_nth)
    then have kz: "(i, outs ! k) \<in> set (zip nd outs)"
      using len by (auto simp: set_zip)
    have "i < length ao" using that c(3) by simp
    with dist kz have ri: "res ! i = output_of (outs ! k)"
      unfolding res by (rule assign_outputs_hit)
    have mk: "ma ! k = unit_args_of a i (fs ! i)" using k c(2) by simp
    have kl: "k < length ma" using k c(2) by simp
    from p(2)[OF kl] obtain wa wb where
      "run_scan_alignments env (unit_args_of a i (fs ! i)) wa = (outs ! k, wb)"
      unfolding mk by blast
    then have "outs ! k = None \<or> output_paths (output_of (outs ! k)) = unit_outputs a i"
      by (rule worker_result_unit)
    moreover have nn: "outs ! k \<noteq> None"
      using ok k len by (metis nth_mem)
    ultimately have paths: "output_paths (res ! i) = unit_outputs a i"
      using ri by simp
    from p(3) kl mk have "Worker (unit_args_of a i (fs ! i)) \<in> set (trace w')"
      by auto
    with paths ri output_of_tuple[OF nn] show ?thesis by simp
  qed
qed

lemma scan_alignments_cases:
  assumes "scan_alignments env a order w = (r, w')"
  obtains (no_files) e where "split_region_files_of env a w = (Inl e, w')" "r = Inl e"
  | (dispatched) fs w0 where "split_region_files_of env a w = (Inr fs, w0)"
      "dispatch env a order fs w0 = (r, w')"
  using assms unfolding scan_alignments_def by (elim bind_pE) auto

lemma split_region_files_given:
  "arg_split_region_files a \<noteq> [] \<Longrightarrow>
   split_region_files_of env a w = (Inr (arg_split_region_files a), w)"
  by (simp add: split_region_files_of_def)

text \<open>
  Claim C3. Whatever the order in which the pool completes the units, a list returned by
  \<^verbatim>\<open>scan_alignments\<close> has one entry per split region file, and its \<open>i\<close>-th entry
  holds the candidates file, the count file and the region file of unit \<open>i\<close>: for a
  unit that was run, the result of the worker that was given the \<open>i\<close>-th split file;
  for a unit skipped as done, the three paths read from its directory.
\<close>

theorem scan_alignments_order:
  assumes "scan_alignments env a order w = (Inr res, w')"
  shows "\<exists>split_region_files w0.
           split_region_files_of env a w = (Inr split_region_files, w0) \<and>
           length res = length split_region_files \<and>
           (\<forall>i < length split_region_files.
              output_paths (res ! i) = unit_outputs a i \<and>
              (pending a w0 i \<longrightarrow>
                 Worker (unit_args_of a i (split_region_files ! i)) \<in> set (trace w')) \<and>
              (\<not> pending a w0 i \<longrightarrow> res ! i = PyList (unit_outputs a i)))"
proof -
  from assms obtain fs w0 where sp: "split_region_files_of env a w = (Inr fs, w0)"
    and d: "dispatch env a order fs w0 = (Inr res, w')"
    by (cases rule: scan_alignments_cases) auto
  note r = dispatch_result[OF d]
  have "output_paths (res ! i) = unit_outputs a i \<and>
        (pending a w0 i \<longrightarrow> Worker (unit_args_of a i (fs ! i)) \<in> set (trace w')) \<and>
        (\<not> pending a w0 i \<longrightarrow> res ! i = PyList (unit_outputs a i))" if "i < length fs" for i
    using r(2)[OF that] r(3)[OF that] by (cases "pending a w0 i") auto
  with sp r(1) show ?thesis by blast
qed

text \<open>
  Claim C4. The pool yields one output per submitted unit, each the return value of that
  unit's worker. If any of them is \<^verbatim>\<open>None\<close>, \<^verbatim>\<open>scan_alignments\<close> raises and returns
  no list. If none is, it returns the full list: one entry per split file, the output of
  the \<open>k\<close>-th submitted unit at the index of that unit, and at every index the three
  paths of the unit, never a placeholder.
\<close>

theorem scan_alignments_all_or_nothing:
  assumes sp: "split_region_files_of env a w = (Inr fs, w0)"
      and cl: "classify a (enumerate 0 fs) ([], replicate (length fs) (PyList []), []) w0 =
                 (Inr (map_args, all_outputs, not_done), w1)"
      and nt: "1 \<le> arg_num_threads a"
      and pool: "pool_map_async_get env order map_args w1 = (outputs, w2)"
  shows "length outputs = length map_args \<and>
         (\<forall>k < length map_args.
            \<exists>wa wb. run_scan_alignments env (map_args ! k) wa = (outputs ! k, wb)) \<and>
         (None \<in> set outputs \<longrightarrow>
            scan_alignments env a order w = (Inl (PyException ''scan_alignments failed!''), w2)) \<and>
         (None \<notin> set outputs \<longrightarrow>
            (\<exists>res. scan_alignments env a order w = (Inr res, w2) \<and> length res = length fs \<and>
               (\<forall>k < length not_done. res ! (not_done ! k) = output_of (outputs ! k)) \<and>
               (\<forall>i < length fs. output_paths (res ! i) = unit_outputs a i \<and>
                                 res ! i \<noteq> PyList [] \<and> res ! i \<noteq> PyNone)))"
proof -
  note p = pool_spec[OF pool]
  note c = classify_all[OF cl]
  have d: "dispatch env a order fs w0 =
           (case check_outputs outputs of Inl e \<Rightarrow> (Inl e, w2)
            | Inr u \<Rightarrow> (Inr (assign_outputs (zip not_done outputs) all_outputs), w2))"
    using cl nt pool by (simp add: dispatch_def)
  have s: "scan_alignments env a order w = dispatch env a order fs w0"
    using sp by (simp add: scan_alignments_def)
  have bad: "scan_alignments env a order w = (Inl (PyException ''scan_alignments failed!''), w2)"
    if "None \<in> set outputs"
  proof -
    from that have "check_outputs outputs = Inl (PyException ''scan_alignments failed!'')"
      by (simp add: check_outputs_Inl)
    then show ?thesis using s d by simp
  qed
  have good: "\<exists>res. scan_alignments env a order w = (Inr res, w2) \<and> length res = length fs \<and>
               (\<forall>k < length not_done. res ! (not_done ! k) = output_of (outputs ! k)) \<and>
               (\<forall>i < length fs. output_paths (res ! i) = unit_outputs a i \<and>
                                 res ! i \<noteq> PyList [] \<and> res ! i \<noteq> PyNone)"
    if "None \<notin> set outputs"
  proof -
    let ?res = "assign_outputs (zip not_done outputs) all_outputs"
    from that have "check_outputs outputs = Inr ()"
      by (simp add: check_outputs_Inr)
    then have dr: "dispatch env a order fs w0 = (Inr ?res, w2)"
      using d by simp
    then have run: "scan_alignments env a order w = (Inr ?res, w2)"
      using s by simp
    note r = dispatch_result[OF dr]
    have len: "length outputs = length not_done" using p(1) c(2) by simp
    have dist: "distinct (map fst (zip not_done outputs))" using len c(1) by simp
    have hit: "?res ! (not_done ! k) = output_of (outputs ! k)" if k: "k < length not_done" for k
    proof -
      have "(not_done ! k, outputs ! k) \<in> set (zip not_done outputs)"
        using k len by (auto simp: set_zip)
      moreover have "not_done ! k \<in> set not_done" using k by simp
      then have "not_done ! k < length all_outputs" using c(1) c(3) by simp
      ultimately show ?thesis using dist by (intro assign_outputs_hit)
    qed
    have ent: "output_paths (?res ! i) = unit_outputs a i \<and>
               ?res ! i \<noteq> PyList [] \<and> ?res ! i \<noteq> PyNone" if i: "i < length fs" for i
    proof (cases "pending a w0 i")
      case True
      with r(2)[OF i] show ?thesis by auto
    next
      case False
      with r(3)[OF i] show ?thesis by (auto simp: unit_outputs_def)
    qed
    from run r(1) hit ent show ?thesis by blast
  qed
  show ?thesis using p(1) p(2) bad good by blast
qed


theorem scan_alignments_order_witness:
  "fst (scan_alignments example_env example_args [1, 0] world_fresh) =
     Inr [PyTuple (''w/work.0/candidates.vcf'', ''w/work.0/count.bed.gz'', ''w/work.0/region.bed''),
          PyTuple (''w/work.1/candidates.vcf'', ''w/work.1/count.bed.gz'', ''w/work.1/region.bed'')] \<and>
   unit_outputs example_args 0 =
     [''w/work.0/candidates.vcf'', ''w/work.0/count.bed.gz'', ''w/work.0/region.bed''] \<and>
   unit_outputs example_args 1 =
     [''w/work.1/candidates.vcf'', ''w/work.1/count.bed.gz'', ''w/work.1/region.bed''] \<and>
   Worker (unit_args_of example_args 0 ''r0.bed'')
     \<in> set (trace (snd (scan_alignments example_env example_args [1, 0] world_fresh))) \<and>
   Worker (unit_args_of example_args 1 ''r1.bed'')
     \<in> set (trace (snd (scan_alignments example_env example_args [1, 0] world_fresh)))"
proof -
  let ?res = "[PyTuple (''w/work.0/candidates.vcf'', ''w/work.0/count.bed.gz'', ''w/work.0/region.bed''),
          PyTuple (''w/work.1/candidates.vcf'', ''w/work.1/count.bed.gz'', ''w/work.1/region.bed'')]"
  let ?w' = "snd (scan_alignments example_env example_args [1, 0] world_fresh)"
  have ev: "fst (scan_alignments example_env example_args [1, 0] world_fresh) = Inr ?res"
    by code_simp
  then have run: "scan_alignments example_env example_args [1, 0] world_fresh = (Inr ?res, ?w')"
    by (simp add: prod_eq_iff)
  have given: "split_region_files_of example_env example_args world_fresh =
                 (Inr [''r0.bed'', ''r1.bed''], world_fresh)"
    using split_region_files_given[of example_args example_env world_fresh]
    by (simp add: example_args_def)
  have pend: "pending example_args world_fresh i" for i
    by (simp add: pending_def example_args_def)
  from scan_alignments_order[OF run] given pend
  have all: "\<forall>i < 2. output_paths (?res ! i) = unit_outputs example_args i \<and>
               Worker (unit_args_of example_args i ([''r0.bed'', ''r1.bed''] ! i)) \<in> set (trace ?w')"
    by auto
  from all[rule_format, of 0] all[rule_format, of 1] ev show ?thesis by simp
qed

theorem scan_alignments_all_or_nothing_witness:
  "fst (pool_map_async_get example_env [1, 0]
          [unit_args_of example_args 0 ''r0.bed'', unit_args_of example_args 1 ''r1.bed'']
          (snd (classify example_args (enumerate 0 [''r0.bed'', ''r1.bed''])
                  ([], replicate 2 (PyList []), []) world_r1_missing))) =
     [Some (''w/work.0/candidates.vcf'', ''w/work.0/count.bed.gz'', ''w/work.0/region.bed''), None] \<and>
   fst (scan_alignments example_env example_args [1, 0] world_r1_missing) =
     Inl (PyException ''scan_alignments failed!'') \<and>
   fst (pool_map_async_get example_env [1, 0]
          [unit_args_of example_args 0 ''r0.bed'', unit_args_of example_args 1 ''r1.bed'']
          (snd (classify example_args (enumerate 0 [''r0.bed'', ''r1.bed''])
                  ([], replicate 2 (PyList []), []) world_fresh))) =
     [Some (''w/work.0/candidates.vcf'', ''w/work.0/count.bed.gz'', ''w/work.0/region.bed''),
      Some (''w/work.1/candidates.vcf'', ''w/work.1/count.bed.gz'', ''w/work.1/region.bed'')] \<and>
   fst (scan_alignments example_env example_args [1, 0] world_fresh) =
     Inr [PyTuple (''w/work.0/candidates.vcf'', ''w/work.0/count.bed.gz'', ''w/work.0/region.bed''),
          PyTuple (''w/work.1/candidates.vcf'', ''w/work.1/count.bed.gz'', ''w/work.1/region.bed'')]"
proof -
  let ?fs = "[''r0.bed'', ''r1.bed'']"
  let ?ma = "[unit_args_of example_args 0 ''r0.bed'', unit_args_of example_args 1 ''r1.bed'']"
  let ?ao = "[PyList [], PyList []]"
  have nt: "1 \<le> arg_num_threads example_args" by (simp add: example_args_def)
  have given: "split_region_files_of example_env example_args w = (Inr ?fs, w)" for w
    using split_region_files_given[of example_args example_env w]
    by (simp add: example_args_def)
  let ?c = "classify example_args (enumerate 0 ?fs) ([], replicate (length ?fs) (PyList []), [])
              world_r1_missing"
  have "fst ?c = Inr (?ma, ?ao, [0, 1])" by code_simp
  then have cl: "?c = (Inr (?ma, ?ao, [0, 1]), snd ?c)"
    by (simp add: prod_eq_iff)
  let ?p = "pool_map_async_get example_env [1, 0] ?ma (snd ?c)"
  have pool: "?p = (fst ?p, snd ?p)" by simp
  have outs: "fst ?p =
     [Some (''w/work.0/candidates.vcf'', ''w/work.0/count.bed.gz'', ''w/work.0/region.bed''), None]"
    by code_simp
  from scan_alignments_all_or_nothing[OF given cl nt pool] outs
  have bad: "scan_alignments example_env example_args [1, 0] world_r1_missing =
          (Inl (PyException ''scan_alignments failed!''), snd ?p)"
    by simp
  let ?d = "classify example_args (enumerate 0 ?fs) ([], replicate (length ?fs) (PyList []), [])
              world_fresh"
  have "fst ?d = Inr (?ma, ?ao, [0, 1])" by code_simp
  then have cl': "?d = (Inr (?ma, ?ao, [0, 1]), snd ?d)"
    by (simp add: prod_eq_iff)
  let ?q = "pool_map_async_get example_env [1, 0] ?ma (snd ?d)"
  have pool': "?q = (fst ?q, snd ?q)" by simp
  have outs': "fst ?q =
     [Some (''w/work.0/candidates.vcf'', ''w/work.0/count.bed.gz'', ''w/work.0/region.bed''),
      Some (''w/work.1/candidates.vcf'', ''w/work.1/count.bed.gz'', ''w/work.1/region.bed'')]"
    by code_simp
  from scan_alignments_all_or_nothing[OF given cl' nt pool'] outs'
  obtain res where res: "scan_alignments example_env example_args [1, 0] world_fresh =
                           (Inr res, snd ?q)"
    and len: "length res = 2"
    and hit: "\<forall>k < 2. res ! ([0, 1] ! k) = output_of (fst ?q ! k)"
    by auto
  from hit[rule_format, of 0] hit[rule_format, of 1] outs'
  have "res ! 0 = PyTuple (''w/work.0/candidates.vcf'', ''w/work.0/count.bed.gz'', ''w/work.0/region.bed'')"
    and "res ! 1 = PyTuple (''w/work.1/candidates.vcf'', ''w/work.1/count.bed.gz'', ''w/work.1/region.bed'')"
    by simp_all
  with len have "res =
     [PyTuple (''w/work.0/candidates.vcf'', ''w/work.0/count.bed.gz'', ''w/work.0/region.bed''),
      PyTuple (''w/work.1/candidates.vcf'', ''w/work.1/count.bed.gz'', ''w/work.1/region.bed'')]"
    by (intro nth_equalityI) (auto simp: less_Suc_eq numeral_2_eq_2)
  with res bad outs outs' show ?thesis by (simp add: numeral_2_eq_2)
qed

lemma unit_outputs_length [simp]: "length (unit_outputs a i) = 3"
  by (simp add: unit_outputs_def)

lemma unit_outputs_work:
  "arg_work a' = arg_work a \<Longrightarrow> unit_outputs a' i = unit_outputs a i"
  by (simp add: unit_outputs_def unit_file_def)

text \<open>
  Claim C9. After the loop the unit numbers \<open>0..N-1\<close> are split in two: those in
  \<^verbatim>\<open>not_done\<close>, each once, whose slot still holds the placeholder and which have one
  queued argument tuple each, in the order of \<^verbatim>\<open>not_done\<close>; and the others, whose slot
  holds the three paths read from disk. The pool returns one output per queued unit, the
  \<open>k\<close>-th being what the worker returned for the \<open>k\<close>-th queued unit. A returned list
  has \<open>N\<close> entries: the slot of the \<open>k\<close>-th queued unit holds the \<open>k\<close>-th output,
  every other slot is as the loop left it, and each entry has three paths, so that no
  placeholder and no \<^verbatim>\<open>None\<close> is left.
\<close>

theorem dispatch_slots:
  assumes cl: "classify a (enumerate 0 fs) ([], replicate (length fs) (PyList []), []) w =
                 (Inr (map_args, all_outputs, not_done), w1)"
      and pool: "pool_map_async_get env order map_args w1 = (outputs, w2)"
  shows "distinct not_done \<and> set not_done \<subseteq> {..<length fs} \<and>
         map_args = map (\<lambda>i. unit_args_of a i (fs ! i)) not_done \<and>
         length all_outputs = length fs \<and>
         (\<forall>i < length fs.
            (i \<in> set not_done \<and> all_outputs ! i = PyList []) \<or>
            (i \<notin> set not_done \<and> all_outputs ! i = PyList (unit_outputs a i))) \<and>
         length outputs = length not_done \<and>
         (\<forall>k < length not_done.
            \<exists>wa wb. run_scan_alignments env
                       (unit_args_of a (not_done ! k) (fs ! (not_done ! k))) wa =
                     (outputs ! k, wb)) \<and>
         (\<forall>res w'. dispatch env a order fs w = (Inr res, w') \<longrightarrow>
            length res = length fs \<and>
            (\<forall>k < length not_done. res ! (not_done ! k) = output_of (outputs ! k)) \<and>
            (\<forall>i < length fs. i \<notin> set not_done \<longrightarrow> res ! i = all_outputs ! i) \<and>
            (\<forall>i < length fs. length (output_paths (res ! i)) = 3 \<and>
                              res ! i \<noteq> PyList [] \<and> res ! i \<noteq> PyNone))"
proof -
  note c = classify_all[OF cl]
  note p = pool_spec[OF pool]
  have c1: "distinct not_done" and c2: "set not_done \<subseteq> {..<length fs}"
    and c3: "map_args = map (\<lambda>i. unit_args_of a i (fs ! i)) not_done"
    and c4: "length all_outputs = length fs"
    using c(1) c(2) c(3) by auto
  have c5: "\<forall>i < length fs.
            (i \<in> set not_done \<and> all_outputs ! i = PyList []) \<or>
            (i \<notin> set not_done \<and> all_outputs ! i = PyList (unit_outputs a i))"
    using c(1) c(4) by auto
  have len: "length outputs = length not_done"
    using p(1) c3 by simp
  have c6: "\<forall>k < length not_done.
            \<exists>wa wb. run_scan_alignments env
                       (unit_args_of a (not_done ! k) (fs ! (not_done ! k))) wa =
                     (outputs ! k, wb)"
  proof (intro allI impI)
    fix k assume k: "k < length not_done"
    then have "k < length map_args" using c3 by simp
    from p(2)[OF this] k show "\<exists>wa wb. run_scan_alignments env
                       (unit_args_of a (not_done ! k) (fs ! (not_done ! k))) wa =
                     (outputs ! k, wb)"
      unfolding c3 by simp
  qed
  have c7: "\<forall>res w'. dispatch env a order fs w = (Inr res, w') \<longrightarrow>
            length res = length fs \<and>
            (\<forall>k < length not_done. res ! (not_done ! k) = output_of (outputs ! k)) \<and>
            (\<forall>i < length fs. i \<notin> set not_done \<longrightarrow> res ! i = all_outputs ! i) \<and>
            (\<forall>i < length fs. length (output_paths (res ! i)) = 3 \<and>
                              res ! i \<noteq> PyList [] \<and> res ! i \<noteq> PyNone)"
  proof (intro allI impI)
    fix res w' assume d: "dispatch env a order fs w = (Inr res, w')"
    note r = dispatch_result[OF d]
    from d cl pool have res: "res = assign_outputs (zip not_done outputs) all_outputs"
      by (auto simp: dispatch_def bind_p_def raise_p_def split: if_splits sum.splits)
    have dist: "distinct (map fst (zip not_done outputs))" using len c1 by simp
    have hit: "res ! (not_done ! k) = output_of (outputs ! k)" if k: "k < length not_done" for k
    proof -
      have "(not_done ! k, outputs ! k) \<in> set (zip not_done outputs)"
        using k len by (auto simp: set_zip)
      moreover have "not_done ! k \<in> set not_done" using k by simp
      then have "not_done ! k < length all_outputs" using c2 c4 by auto
      ultimately show ?thesis unfolding res using dist by (intro assign_outputs_hit)
    qed
    have keep: "res ! i = all_outputs ! i" if "i \<notin> set not_done" for i
    proof -
      from that have "i \<notin> fst ` set (zip not_done outputs)"
        using len by (auto dest: set_zip_leftD)
      then show ?thesis unfolding res by (rule assign_outputs_other)
    qed
    have ent: "length (output_paths (res ! i)) = 3 \<and> res ! i \<noteq> PyList [] \<and> res ! i \<noteq> PyNone"
      if "i < length fs" for i
    proof (cases "pending a w i")
      case True
      with r(2)[OF that] show ?thesis by auto
    next
      case False
      with r(3)[OF that] show ?thesis by (auto simp: unit_outputs_def)
    qed
    from r(1) hit keep ent show "length res = length fs \<and>
            (\<forall>k < length not_done. res ! (not_done ! k) = output_of (outputs ! k)) \<and>
            (\<forall>i < length fs. i \<notin> set not_done \<longrightarrow> res ! i = all_outputs ! i) \<and>
            (\<forall>i < length fs. length (output_paths (res ! i)) = 3 \<and>
                              res ! i \<noteq> PyList [] \<and> res ! i \<noteq> PyNone)"
      by blast
  qed
  show ?thesis by (intro conjI c1 c2 c3 c4 c5 len c6 c7)
qed

lemma classify_none_pending:
  "\<forall>i. n \<le> i \<and> i < n + length fs \<longrightarrow> \<not> pending a w i \<Longrightarrow>
   \<exists>ao'. classify a (enumerate n fs) (ma, ao, nd) w = (Inr (ma, ao', nd), w)"
proof (induction fs arbitrary: n ao)
  case Nil
  then show ?case by simp
next
  case (Cons f fs)
  then have np: "\<not> pending a w n"
    and rest: "\<forall>i. Suc n \<le> i \<and> i < Suc n + length fs \<longrightarrow> \<not> pending a w i"
    by auto
  from Cons.IH[OF rest, of "ao[n := PyList (unit_outputs a n)]"] np show ?case
    by (simp del: classify.simps add: classify_Cons_done)
qed

lemma pool_nothing: "pool_map_async_get env order [] w = ([], w)"
  by (simp add: pool_map_async_get_def completion_order_def)

lemma world_eqI: "files w1 = files w \<Longrightarrow> trace w1 = trace w \<Longrightarrow> w1 = (w :: world)"
  by simp

text \<open>
  Claim C5. With \<^verbatim>\<open>restart\<close> false, at least one pool process, and the three files of
  every unit in place: the loop queues no unit and deletes nothing, the pool given the empty
  list calls no worker, and the dispatcher returns the three paths of every unit and leaves
  the world as it was, trace included. These are the paths that any successful run on the
  same work directory returns. A unit is left out of \<^verbatim>\<open>not_done\<close> exactly when
  \<^verbatim>\<open>restart\<close> is false and its three files exist.
\<close>

theorem dispatch_idempotent:
  assumes nr: "\<not> arg_restart a"
      and all_done: "\<forall>i < length fs.
              os_path_exists w (unit_file a i ''region.bed'') \<and>
              os_path_exists w (unit_file a i ''candidates.vcf'') \<and>
              os_path_exists w (unit_file a i ''count.bed.gz'')"
      and nt: "1 \<le> arg_num_threads a"
  shows "classify a (enumerate 0 fs) ([], replicate (length fs) (PyList []), []) w =
           (Inr ([], map (\<lambda>i. PyList (unit_outputs a i)) [0..<length fs], []), w) \<and>
         pool_map_async_get env order [] w = ([], w) \<and>
         dispatch env a order fs w =
           (Inr (map (\<lambda>i. PyList (unit_outputs a i)) [0..<length fs]), w) \<and>
         (\<forall>env' a' order' w0 res0 w0'.
            arg_work a' = arg_work a \<longrightarrow>
            dispatch env' a' order' fs w0 = (Inr res0, w0') \<longrightarrow>
            map output_paths res0 = map (unit_outputs a) [0..<length fs]) \<and>
         (\<forall>a' w0 map_args all_outputs not_done w1 i.
            classify a' (enumerate 0 fs) ([], replicate (length fs) (PyList []), []) w0 =
              (Inr (map_args, all_outputs, not_done), w1) \<longrightarrow>
            i < length fs \<longrightarrow>
            (i \<notin> set not_done) =
              (\<not> arg_restart a' \<and>
               os_path_exists w0 (unit_file a' i ''region.bed'') \<and>
               os_path_exists w0 (unit_file a' i ''candidates.vcf'') \<and>
               os_path_exists w0 (unit_file a' i ''count.bed.gz'')))"
proof -
  have np: "\<not> pending a w i" if "i < length fs" for i
    using that nr all_done by (simp add: pending_def)
  then have "\<forall>i. 0 \<le> i \<and> i < 0 + length fs \<longrightarrow> \<not> pending a w i" by simp
  from classify_none_pending[OF this] obtain ao where
    cl: "classify a (enumerate 0 fs) ([], replicate (length fs) (PyList []), []) w =
           (Inr ([], ao, []), w)"
    by blast
  note c = classify_all[OF cl]
  have ao: "ao = map (\<lambda>i. PyList (unit_outputs a i)) [0..<length fs]"
    by (rule nth_equalityI) (use c(3) c(4) np in auto)
  have g1: "classify a (enumerate 0 fs) ([], replicate (length fs) (PyList []), []) w =
           (Inr ([], map (\<lambda>i. PyList (unit_outputs a i)) [0..<length fs], []), w)"
    using cl ao by simp
  have g2: "pool_map_async_get env order [] w = ([], w)"
    by (rule pool_nothing)
  have g3: "dispatch env a order fs w =
           (Inr (map (\<lambda>i. PyList (unit_outputs a i)) [0..<length fs]), w)"
    using g1 nt by (simp add: dispatch_def pool_nothing)
  have g4: "\<forall>env' a' order' w0 res0 w0'.
            arg_work a' = arg_work a \<longrightarrow>
            dispatch env' a' order' fs w0 = (Inr res0, w0') \<longrightarrow>
            map output_paths res0 = map (unit_outputs a) [0..<length fs]"
  proof (intro allI impI)
    fix env' a' order' w0 res0 w0'
    assume wk: "arg_work a' = arg_work a"
      and d: "dispatch env' a' order' fs w0 = (Inr res0, w0')"
    note r = dispatch_result[OF d]
    have "output_paths (res0 ! i) = unit_outputs a i" if "i < length fs" for i
      using r(2)[OF that] r(3)[OF that] unit_outputs_work[OF wk, of i]
      by (cases "pending a' w0 i") auto
    then show "map output_paths res0 = map (unit_outputs a) [0..<length fs]"
      using r(1) by (intro nth_equalityI) auto
  qed
  have g5: "\<forall>a' w0 map_args all_outputs not_done w1 i.
            classify a' (enumerate 0 fs) ([], replicate (length fs) (PyList []), []) w0 =
              (Inr (map_args, all_outputs, not_done), w1) \<longrightarrow>
            i < length fs \<longrightarrow>
            (i \<notin> set not_done) =
              (\<not> arg_restart a' \<and>
               os_path_exists w0 (unit_file a' i ''region.bed'') \<and>
               os_path_exists w0 (unit_file a' i ''candidates.vcf'') \<and>
               os_path_exists w0 (unit_file a' i ''count.bed.gz''))"
  proof (intro allI impI)
    fix a' w0 map_args all_outputs not_done w1 i
    assume cl: "classify a' (enumerate 0 fs) ([], replicate (length fs) (PyList []), []) w0 =
                (Inr (map_args, all_outputs, not_done), w1)"
      and i: "i < length fs"
    from classify_all(1)[OF cl] i have "(i \<notin> set not_done) = (\<not> pending a' w0 i)" by simp
    then show "(i \<notin> set not_done) =
                (\<not> arg_restart a' \<and>
                 os_path_exists w0 (unit_file a' i ''region.bed'') \<and>
                 os_path_exists w0 (unit_file a' i ''candidates.vcf'') \<and>
                 os_path_exists w0 (unit_file a' i ''count.bed.gz''))"
      by (auto simp: pending_def)
  qed
  show ?thesis by (intro conjI g1 g2 g3 g4 g5)
qed

lemma worker_mkdir_first:
  assumes bin: "os_path_exists w scan_alignments_binary"
      and absent: "\<not> os_path_exists w work"
      and run: "run_scan_alignments env
                  (work, reference, scan_alignments_binary, split_region_file, input_bam,
                   window_size, maf, min_mapq, max_dp, calc_qual, num_threads) w = (r, w')"
  shows "\<exists>evs. trace w' = trace w @ Mkdir work # evs"
proof -
  let ?a = "(work, reference, scan_alignments_binary, split_region_file, input_bam,
             window_size, maf, min_mapq, max_dp, calc_qual, num_threads)"
  let ?rest = "\<lambda>u::unit. bind_p (BedTool split_region_file) (\<lambda>regions.
     seq_p (if length regions > 0
            then ext_call
                   (Shell \<lparr>cmd_binary = scan_alignments_binary, cmd_ref = reference,
                           cmd_b = input_bam, cmd_L = split_region_file,
                           cmd_out_vcf_file = work @ ''/candidates.vcf'',
                           cmd_out_count_file = work @ ''/count.bed'',
                           cmd_window_size = window_size, cmd_min_af = maf,
                           cmd_min_mapq = min_mapq, cmd_max_depth = max_dp,
                           cmd_num_thread = num_threads,
                           cmd_calculate_qual_stat = calc_qual,
                           cmd_stdout = os_path_join work [''scan.out''],
                           cmd_stderr = os_path_join work [''scan.err'']\<rparr>)
                   (run_shell_command env
                         \<lparr>cmd_binary = scan_alignments_binary, cmd_ref = reference,
                           cmd_b = input_bam, cmd_L = split_region_file,
                           cmd_out_vcf_file = work @ ''/candidates.vcf'',
                           cmd_out_count_file = work @ ''/count.bed'',
                           cmd_window_size = window_size, cmd_min_af = maf,
                           cmd_min_mapq = min_mapq, cmd_max_depth = max_dp,
                           cmd_num_thread = num_threads,
                           cmd_calculate_qual_stat = calc_qual,
                           cmd_stdout = os_path_join work [''scan.out''],
                           cmd_stderr = os_path_join work [''scan.err'']\<rparr>)
            else seq_p (saveas [] (os_path_join work [''candidates.vcf'']))
                       (saveas [] (os_path_join work [''count.bed''])))
    (seq_p (ext_call (Tabix (os_path_join work [''count.bed'']))
                     (tabix_index env (os_path_join work [''count.bed''])))
    (seq_p (ext_call (Concat [split_region_file] (os_path_join work [''region.bed'']))
                     (concatenate_files env [split_region_file]
                        (os_path_join work [''region.bed''])))
           (return_p (os_path_join work [''candidates.vcf''],
                      os_path_join work [''count.bed.gz''],
                      os_path_join work [''region.bed''])))))"
  have t: "run_scan_alignments_try env ?a w = bind_p (os_mkdir work) ?rest w"
    using bin absent by (simp add: seq_p_def bind_p_def)
  have er: "emits worker_event (?rest u)" for u
    by (intro emits_seq emits_bind emits_cond emits_if emits_return emits_raise emits_os_mkdir
          emits_saveas emits_ext_call emits_BedTool) simp_all
  obtain t' where t': "run_scan_alignments_try env ?a w = (t', w')"
    using run by (auto elim: worker_result_cases)
  then have "bind_p (os_mkdir work) ?rest w = (t', w')" using t by simp
  then show ?thesis
  proof (cases rule: bind_pE)
    case (1 e)
    then show ?thesis by (auto dest: os_mkdir_trace)
  next
    case (2 x w1)
    from er 2(2) obtain evs where "trace w' = trace w1 @ evs" by (rule emitsD)
    with 2(1) show ?thesis by (auto dest: os_mkdir_trace)
  qed
qed

text \<open>
  Claim C7, as amended. For a unit \<open>i\<close> that is not skipped, in a file system where
  whatever exists under \<^verbatim>\<open>work.<i>\<close> has that directory: once the loop is over nothing
  exists at or under \<^verbatim>\<open>work.<i>\<close>, an existing directory has been removed with
  \<^verbatim>\<open>rmtree\<close>, and the unit is queued. A worker of the unit that finds the binary and no
  unit directory starts by creating the directory, and goes on in the world that has the
  new, empty directory; a worker that does not find the binary returns \<^verbatim>\<open>None\<close> and
  creates nothing.
\<close>

theorem stale_unit_directory_removed:
  assumes cl: "classify a (enumerate 0 fs) ([], replicate (length fs) (PyList []), []) w =
                 (Inr (map_args, all_outputs, not_done), w1)"
      and i: "i < length fs"
      and p: "pending a w i"
      and wf: "\<forall>q. path_under (work_i a i) q \<longrightarrow> files w q \<noteq> None \<longrightarrow>
                   os_path_exists w (work_i a i)"
  shows "(\<forall>q. path_under (work_i a i) q \<longrightarrow> files w1 q = None) \<and>
         (os_path_exists w (work_i a i) \<longrightarrow> Rmtree (work_i a i) \<in> set (trace w1)) \<and>
         unit_args_of a i (fs ! i) \<in> set map_args \<and>
         (\<forall>w2 r w3.
            os_path_exists w2 (arg_scan_alignments_binary a) \<longrightarrow>
            \<not> os_path_exists w2 (work_i a i) \<longrightarrow>
            run_scan_alignments env (unit_args_of a i (fs ! i)) w2 = (r, w3) \<longrightarrow>
            (\<exists>evs. trace w3 = trace w2 @ Mkdir (work_i a i) # evs) \<and>
            (parent_is_dir w2 (work_i a i) \<longrightarrow>
               run_scan_alignments env (unit_args_of a i (fs ! i))
                 (w2\<lparr>files := (files w2)(work_i a i \<mapsto> Dir),
                     trace := trace w2 @ [Mkdir (work_i a i)]\<rparr>) = (r, w3))) \<and>
         (\<forall>w2. \<not> os_path_exists w2 (arg_scan_alignments_binary a) \<longrightarrow>
            run_scan_alignments env (unit_args_of a i (fs ! i)) w2 = (None, w2))"
proof (intro conjI allI impI)
  note c = classify_all[OF cl]
  fix q assume u: "path_under (work_i a i) q"
  show "files w1 q = None"
  proof (cases "os_path_exists w (work_i a i)")
    case True
    with i p u have "\<exists>j < length fs. pending a w j \<and> os_path_exists w (work_i a j) \<and>
                       path_under (work_i a j) q"
      by blast
    then show ?thesis using c(5)[of q] by simp
  next
    case False
    with wf u have "files w q = None" by blast
    then show ?thesis using c(5)[of q] by simp
  qed
next
  note c = classify_all[OF cl]
  assume "os_path_exists w (work_i a i)"
  with i p show "Rmtree (work_i a i) \<in> set (trace w1)"
    unfolding c(6) by simp
next
  note c = classify_all[OF cl]
  from i p have "i \<in> set not_done" unfolding c(1) by simp
  then show "unit_args_of a i (fs ! i) \<in> set map_args"
    unfolding c(2) by simp
next
  fix w2 r w3
  assume "os_path_exists w2 (arg_scan_alignments_binary a)"
    "\<not> os_path_exists w2 (work_i a i)"
    "run_scan_alignments env (unit_args_of a i (fs ! i)) w2 = (r, w3)"
  then show "\<exists>evs. trace w3 = trace w2 @ Mkdir (work_i a i) # evs"
    unfolding unit_args_of_def by (rule worker_mkdir_first)
next
  fix w2 r w3
  assume bin: "os_path_exists w2 (arg_scan_alignments_binary a)"
    and absent: "\<not> os_path_exists w2 (work_i a i)"
    and run: "run_scan_alignments env (unit_args_of a i (fs ! i)) w2 = (r, w3)"
    and parent: "parent_is_dir w2 (work_i a i)"
  from absent have none: "files w2 (work_i a i) = None"
    by (simp add: os_path_exists_def)
  from worker_creates_dir[OF bin none parent, of env "arg_reference a" "fs ! i"
      "arg_input_bam a" "arg_window_size a" "arg_maf a" "arg_min_mapq a" "arg_max_dp a"
      "arg_calc_qual a" 1] run
  show "run_scan_alignments env (unit_args_of a i (fs ! i))
          (w2\<lparr>files := (files w2)(work_i a i \<mapsto> Dir),
              trace := trace w2 @ [Mkdir (work_i a i)]\<rparr>) = (r, w3)"
    unfolding unit_args_of_def by simp
next
  fix w2
  assume "\<not> os_path_exists w2 (arg_scan_alignments_binary a)"
  then show "run_scan_alignments env (unit_args_of a i (fs ! i)) w2 = (None, w2)"
    by (simp add: unit_args_of_def run_scan_alignments_def seq_p_def bind_p_def raise_p_def)
qed

theorem dispatch_slots_witness:
  "fst (classify example_args_again (enumerate 0 [''r0.bed'', ''r1.bed''])
          ([], replicate 2 (PyList []), []) world_half_done) =
     Inr ([unit_args_of example_args_again 1 ''r1.bed''],
          [PyList [''w/work.0/candidates.vcf'', ''w/work.0/count.bed.gz'', ''w/work.0/region.bed''],
           PyList []],
          [1]) \<and>
   fst (pool_map_async_get example_env [0]
          [unit_args_of example_args_again 1 ''r1.bed'']
          (snd (classify example_args_again (enumerate 0 [''r0.bed'', ''r1.bed''])
                  ([], replicate 2 (PyList []), []) world_half_done))) =
     [Some (''w/work.1/candidates.vcf'', ''w/work.1/count.bed.gz'', ''w/work.1/region.bed'')] \<and>
   fst (dispatch example_env example_args_again [0] [''r0.bed'', ''r1.bed''] world_half_done) =
     Inr [PyList [''w/work.0/candidates.vcf'', ''w/work.0/count.bed.gz'', ''w/work.0/region.bed''],
          PyTuple (''w/work.1/candidates.vcf'', ''w/work.1/count.bed.gz'', ''w/work.1/region.bed'')]"
proof -
  let ?fs = "[''r0.bed'', ''r1.bed'']"
  let ?ma = "[unit_args_of example_args_again 1 ''r1.bed'']"
  let ?skipped = "PyList [''w/work.0/candidates.vcf'', ''w/work.0/count.bed.gz'', ''w/work.0/region.bed'']"
  let ?tuple = "(''w/work.1/candidates.vcf'', ''w/work.1/count.bed.gz'', ''w/work.1/region.bed'')"
  let ?c = "classify example_args_again (enumerate 0 ?fs) ([], replicate 2 (PyList []), [])
              world_half_done"
  have r2: "replicate (length ?fs) (PyList []) = replicate 2 (PyList [])"
    by (simp add: numeral_2_eq_2)
  have fc: "fst ?c = Inr (?ma, [?skipped, PyList []], [1])" by code_simp
  have cl: "classify example_args_again (enumerate 0 ?fs)
              ([], replicate (length ?fs) (PyList []), []) world_half_done =
            (Inr (?ma, [?skipped, PyList []], [1]), snd ?c)"
    unfolding r2 using fc by (simp only: prod_eq_iff fst_conv snd_conv simp_thms)
  let ?p = "pool_map_async_get example_env [0] ?ma (snd ?c)"
  have pool: "?p = (fst ?p, snd ?p)" by simp
  have outs: "fst ?p = [Some ?tuple]" by code_simp
  let ?d = "dispatch example_env example_args_again [0] ?fs world_half_done"
  have "(case fst ?d of Inr res \<Rightarrow> True | Inl e \<Rightarrow> False)" by code_simp
  then obtain res where fd: "fst ?d = Inr res" by (auto split: sum.splits)
  then have d: "?d = (Inr res, snd ?d)" by (simp only: prod_eq_iff fst_conv snd_conv simp_thms)
  note slots = dispatch_slots[OF cl pool]
  note ret = slots[THEN conjunct2, THEN conjunct2, THEN conjunct2, THEN conjunct2,
                   THEN conjunct2, THEN conjunct2, THEN conjunct2, rule_format, OF d]
  from ret have len: "length res = 2" by simp
  from ret have hit: "\<forall>k < length [1::nat]. res ! ([1] ! k) = output_of (fst ?p ! k)"
    by (elim conjE)
  from ret have keep: "\<forall>i < length ?fs. i \<notin> set [1::nat] \<longrightarrow> res ! i = [?skipped, PyList []] ! i"
    by (elim conjE)
  from hit[rule_format, of 0] keep[rule_format, of 0]
  have "res ! 0 = ?skipped" and "res ! 1 = PyTuple ?tuple"
    unfolding outs by simp_all
  with len have "res = [?skipped, PyTuple ?tuple]"
    by (intro nth_equalityI) (auto simp: less_Suc_eq numeral_2_eq_2)
  with fd have fd': "fst ?d = Inr [?skipped, PyTuple ?tuple]" by (simp only:)
  show ?thesis by (rule conjI[OF fc conjI[OF outs fd']])
qed

lemma str_nat_0: "str_nat 0 = ''0''"
  by (subst str_nat.simps) simp

lemma str_nat_1: "str_nat (Suc 0) = ''1''"
  by (subst str_nat.simps) simp


lemma example_work_i:
  "work_i example_args_again 0 = ''w/work.0''"
  "work_i example_args_again (Suc 0) = ''w/work.1''"
  by (simp_all add: work_i_eq example_args_again_def example_args_def str_nat_0 str_nat_1)

lemma example_unit_file:
  "\<not> startswith name ''/'' \<Longrightarrow> unit_file example_args_again 0 name = ''w/work.0/'' @ name"
  "\<not> startswith name ''/'' \<Longrightarrow> unit_file example_args_again (Suc 0) name = ''w/work.1/'' @ name"
  by (simp_all add: unit_file_eq example_work_i)

theorem dispatch_idempotent_witness:
  "classify example_args_again (enumerate 0 [''r0.bed'', ''r1.bed''])
     ([], replicate (length [''r0.bed'', ''r1.bed'']) (PyList []), []) world_all_done =
     (Inr ([],
           [PyList [''w/work.0/candidates.vcf'', ''w/work.0/count.bed.gz'', ''w/work.0/region.bed''],
            PyList [''w/work.1/candidates.vcf'', ''w/work.1/count.bed.gz'', ''w/work.1/region.bed'']],
           []),
      world_all_done) \<and>
   dispatch example_env example_args_again [1, 0] [''r0.bed'', ''r1.bed''] world_all_done =
     (Inr [PyList [''w/work.0/candidates.vcf'', ''w/work.0/count.bed.gz'', ''w/work.0/region.bed''],
           PyList [''w/work.1/candidates.vcf'', ''w/work.1/count.bed.gz'', ''w/work.1/region.bed'']],
      world_all_done)"
proof -
  have nr: "\<not> arg_restart example_args_again"
    by (simp add: example_args_again_def)
  have nt: "1 \<le> arg_num_threads example_args_again"
    by (simp add: example_args_again_def example_args_def)
  have all_done: "\<forall>i < length [''r0.bed'', ''r1.bed''].
              os_path_exists world_all_done (unit_file example_args_again i ''region.bed'') \<and>
              os_path_exists world_all_done (unit_file example_args_again i ''candidates.vcf'') \<and>
              os_path_exists world_all_done (unit_file example_args_again i ''count.bed.gz'')"
    by (simp add: less_Suc_eq example_unit_file startswith_def os_path_exists_def
          world_all_done_def all_conj_distrib)
  have u: "[0..<length [''r0.bed'', ''r1.bed'']] = [0, Suc 0]"
    by (simp add: upt_conv_Cons)
  note idem = dispatch_idempotent[OF nr all_done nt, of example_env "[1, 0]"]
  from idem[THEN conjunct1] idem[THEN conjunct2, THEN conjunct2, THEN conjunct1]
  show ?thesis
    unfolding u
    by (simp add: unit_outputs_def example_unit_file startswith_def del: classify.simps)
qed

theorem stale_unit_directory_removed_witness:
  "files world_half_done ''w/work.1/candidates.vcf'' = Some (File [(''chr1'', 7, 8)]) \<and>
   pending example_args_again world_half_done 1 \<and>
   files (snd (classify example_args_again (enumerate 0 [''r0.bed'', ''r1.bed''])
             ([], replicate 2 (PyList []), []) world_half_done)) ''w/work.1/candidates.vcf'' = None \<and>
   files (snd (classify example_args_again (enumerate 0 [''r0.bed'', ''r1.bed''])
             ([], replicate 2 (PyList []), []) world_half_done)) ''w/work.1'' = None \<and>
   Rmtree ''w/work.1'' \<in> set (trace (snd (classify example_args_again
             (enumerate 0 [''r0.bed'', ''r1.bed''])
             ([], replicate 2 (PyList []), []) world_half_done))) \<and>
   (\<exists>evs. trace (snd (run_scan_alignments example_env
                        (unit_args_of example_args_again 1 ''r1.bed'')
                        (snd (classify example_args_again (enumerate 0 [''r0.bed'', ''r1.bed''])
                                ([], replicate 2 (PyList []), []) world_half_done)))) =
          trace (snd (classify example_args_again (enumerate 0 [''r0.bed'', ''r1.bed''])
                        ([], replicate 2 (PyList []), []) world_half_done)) @
          Mkdir ''w/work.1'' # evs)"
proof -
  let ?fs = "[''r0.bed'', ''r1.bed'']"
  let ?a = "example_args_again"
  let ?ma = "[unit_args_of example_args_again 1 ''r1.bed'']"
  let ?skipped = "PyList [''w/work.0/candidates.vcf'', ''w/work.0/count.bed.gz'', ''w/work.0/region.bed'']"
  let ?c = "classify example_args_again (enumerate 0 ?fs) ([], replicate 2 (PyList []), [])
              world_half_done"
  let ?w1 = "snd ?c"
  have r2: "replicate (length ?fs) (PyList []) = replicate 2 (PyList [])"
    by (simp add: numeral_2_eq_2)
  have fc: "fst ?c = Inr (?ma, [?skipped, PyList []], [1])" by code_simp
  have cl: "classify example_args_again (enumerate 0 ?fs)
              ([], replicate (length ?fs) (PyList []), []) world_half_done =
            (Inr (?ma, [?skipped, PyList []], [1]), ?w1)"
    unfolding r2 using fc by (simp only: prod_eq_iff fst_conv snd_conv simp_thms)
  have i: "1 < length ?fs" by simp
  have wi: "work_i example_args_again 1 = ''w/work.1''"
    using example_work_i(2) by simp
  have pend: "pending example_args_again world_half_done 1"
    using example_unit_file(2)[of "''region.bed''"]
    by (simp add: pending_def startswith_def os_path_exists_def world_half_done_def)
  have stale: "files world_half_done ''w/work.1/candidates.vcf'' = Some (File [(''chr1'', 7, 8)])"
    by (simp add: world_half_done_def)
  have ex: "os_path_exists world_half_done (work_i example_args_again 1)"
    unfolding wi by (simp add: os_path_exists_def world_half_done_def)
  then have wf: "\<forall>q. path_under (work_i example_args_again 1) q \<longrightarrow>
                     files world_half_done q \<noteq> None \<longrightarrow>
                     os_path_exists world_half_done (work_i example_args_again 1)"
    by simp
  note removed = stale_unit_directory_removed[OF cl i pend wf, of example_env]
  have u1: "path_under (work_i example_args_again 1) ''w/work.1/candidates.vcf''"
    and u2: "path_under (work_i example_args_again 1) ''w/work.1''"
    unfolding wi by (simp_all add: path_under_def)
  from removed[THEN conjunct1, rule_format, OF u1] removed[THEN conjunct1, rule_format, OF u2]
  have gone: "files ?w1 ''w/work.1/candidates.vcf'' = None" "files ?w1 ''w/work.1'' = None"
    by (simp_all only:)
  from removed[THEN conjunct2, THEN conjunct1, rule_format, OF ex]
  have rm: "Rmtree ''w/work.1'' \<in> set (trace ?w1)"
    unfolding wi by (simp only:)
  have bin: "os_path_exists ?w1 (arg_scan_alignments_binary example_args_again)"
    by code_simp
  have absent: "\<not> os_path_exists ?w1 (work_i example_args_again 1)"
    unfolding wi using gone(2) by (simp only: os_path_exists_def simp_thms)
  let ?run = "run_scan_alignments example_env (unit_args_of example_args_again 1 ([''r0.bed'', ''r1.bed''] ! 1)) ?w1"
  have run: "?run = (fst ?run, snd ?run)" by simp
  from removed[THEN conjunct2, THEN conjunct2, THEN conjunct2, THEN conjunct1, rule_format,
           OF bin absent run, THEN conjunct1]
  have mk: "\<exists>evs. trace (snd ?run) = trace ?w1 @ Mkdir ''w/work.1'' # evs"
    unfolding wi by (simp only:)
  have nth: "[''r0.bed'', ''r1.bed''] ! 1 = ''r1.bed''" by simp
  show ?thesis
    using stale pend gone rm mk unfolding nth by (intro conjI)
qed

text \<open>
  The claim as stated fails when the binary is missing: unit 1 is not skipped, its
  directory with the partial output is deleted and its worker is called, but the worker
  returns \<^verbatim>\<open>None\<close> without creating the directory again.
\<close>

theorem stale_unit_directory_removed_counterexample:
  "pending example_args_again world_half_done_no_binary 1 \<and>
   files world_half_done_no_binary ''w/work.1'' = Some Dir \<and>
   fst (scan_alignments example_env example_args_again [0] world_half_done_no_binary) =
     Inl (PyException ''scan_alignments failed!'') \<and>
   trace (snd (scan_alignments example_env example_args_again [0] world_half_done_no_binary)) =
     [Rmtree ''w/work.1'', Worker (unit_args_of example_args_again 1 ''r1.bed'')] \<and>
   files (snd (scan_alignments example_env example_args_again [0] world_half_done_no_binary))
     ''w/work.1'' = None"
  by code_simp

subsection \<open>The command line\<close>









subsection \<open>Chunk files of an earlier run\<close>

text \<open>
  What the scan of lines 88--96 returns: the files found, sorted by chunk index when they
  cover at least 0.98 of the total length, and exactly as found otherwise.
\<close>

lemma found_region_files_cases:
  assumes nr: "\<not> arg_restart a"
      and len: "spilt_total_len_of
                  (glob_glob env (os_path_join (arg_work a) [''region_*.bed'']) (files w))
                  (w\<lparr>trace := trace w @ [Glob (os_path_join (arg_work a) [''region_*.bed''])]\<rparr>) =
                (Inr n, w1)"
  shows "found_region_files env a total_len w =
           (if 98 * total_len \<le> 100 * n
            then (case sorted_by region_index
                         (glob_glob env (os_path_join (arg_work a) [''region_*.bed'']) (files w)) of
                    Inl e \<Rightarrow> (Inl e, w1)
                  | Inr sorted_files \<Rightarrow> (Inr sorted_files, w1))
            else (Inr (glob_glob env (os_path_join (arg_work a) [''region_*.bed'']) (files w)), w1))"
  using nr len
  by (simp add: found_region_files_def bind_p_def return_p_def raise_p_def split: sum.splits)

lemma region_files_sorted_by_index:
  "sorted_by region_index [''w/region_10.bed'', ''w/region_2.bed''] =
     Inr [''w/region_2.bed'', ''w/region_10.bed'']"
  by code_simp

lemma region_files_reused_at_full_coverage:
  "fst (split_region_files_of example_env example_args_rescan world_full_coverage) =
     Inr [''w/region_2.bed'', ''w/region_10.bed''] \<and>
   trace (snd (split_region_files_of example_env example_args_rescan world_full_coverage)) =
     [Glob ''w/region_*.bed'']"
  by code_simp

text \<open>
  Claim C2. The files found are put to the test of 0.98 of the total length only to decide
  whether they are sorted: the test has no \<^verbatim>\<open>else\<close> branch (lines 92--96). With
  \<^verbatim>\<open>restart\<close> false and no list given, two chunk files that cover 200 of 1000 positions
  are reused, in the order in which \<^verbatim>\<open>glob\<close> listed them, and the base region set is
  not split again: the only call is the one to \<^verbatim>\<open>glob\<close>.
\<close>

theorem region_files_reused_below_98_percent:
  "\<not> arg_restart example_args_rescan \<and> arg_split_region_files example_args_rescan = [] \<and>
   fst (base_regions example_env example_args_rescan world_low_coverage) =
     Inr [(''chr1'', 1, 1000)] \<and>
   total_len_of [(''chr1'', 1, 1000)] = 1000 \<and>
   glob_glob example_env (os_path_join (arg_work example_args_rescan) [''region_*.bed''])
     (files world_low_coverage) = [''w/region_10.bed'', ''w/region_2.bed''] \<and>
   fst (spilt_total_len_of [''w/region_10.bed'', ''w/region_2.bed''] world_low_coverage) =
     Inr 200 \<and>
   fst (split_region_files_of example_env example_args_rescan world_low_coverage) =
     Inr [''w/region_10.bed'', ''w/region_2.bed''] \<and>
   trace (snd (split_region_files_of example_env example_args_rescan world_low_coverage)) =
     [Glob ''w/region_*.bed'']"
  by code_simp

end
